theory Spec2Isabelle
  imports Main "HOL-Library.Sublist"
begin

section \<open>JavaScript strings\<close>

text \<open>
  A JavaScript string is a sequence of UTF-16 code units and \<open>length\<close> counts code
  units.  A code unit is modelled as a natural number (below 65536 in every real string);
  \<open>js\<close> turns a literal of ASCII characters into such a string.  Eight-bit characters
  would not do: \<open>JSON.parse\<close> decodes the six ASCII characters of a \<open>\uXXXX\<close> escape
  into one arbitrary code unit.
\<close>

type_synonym jsstring = "nat list"

definition js :: "string \<Rightarrow> jsstring" where
  "js s = map of_char s"

text \<open>\<open>s.startsWith(p)\<close>, \<open>s.includes(sub)\<close>, \<open>s.split(sep)\<close> for a separator of one
  code unit, and \<open>xs.join(sep)\<close>.\<close>

definition startsWith :: "jsstring \<Rightarrow> jsstring \<Rightarrow> bool" where
  "startsWith s p = prefix p s"

primrec js_includes :: "jsstring \<Rightarrow> jsstring \<Rightarrow> bool" where
  "js_includes [] sub = (sub = [])"
| "js_includes (c # cs) sub = (prefix sub (c # cs) \<or> js_includes cs sub)"

primrec js_split :: "nat \<Rightarrow> jsstring \<Rightarrow> jsstring list" where
  "js_split sep [] = [[]]"
| "js_split sep (c # cs) =
     (if c = sep then [] # js_split sep cs
      else (case js_split sep cs of
              [] \<Rightarrow> [[c]]
            | l # ls \<Rightarrow> (c # l) # ls))"

fun js_join :: "jsstring \<Rightarrow> jsstring list \<Rightarrow> jsstring" where
  "js_join sep [] = []"
| "js_join sep [x] = x"
| "js_join sep (x # y # ys) = x @ sep @ js_join sep (y # ys)"

text \<open>
  \<open>s.toLowerCase()\<close>, code unit by code unit.  The mapping is exact on ASCII and Latin-1
  (\<open>A\<close>-\<open>Z\<close>, and U+00C0-U+00DE without the multiplication sign); code units from 256
  on are left as they are.  The program only searches the lower-cased text for ASCII
  keywords without \<open>i\<close> and \<open>k\<close>, the two ASCII letters that some character outside
  Latin-1 lower-cases to, so the searches are not affected.
\<close>

definition toLowerCase_unit :: "nat \<Rightarrow> nat" where
  "toLowerCase_unit c =
     (if (65 \<le> c \<and> c \<le> 90) \<or> (192 \<le> c \<and> c \<le> 222 \<and> c \<noteq> 215) then c + 32 else c)"

definition toLowerCase :: "jsstring \<Rightarrow> jsstring" where
  "toLowerCase s = map toLowerCase_unit s"

text \<open>\<open>s.trim()\<close> removes white space and line terminators (ECMAScript \<open>WhiteSpace\<close>
  and \<open>LineTerminator\<close>) from both ends.\<close>

definition is_line_terminator :: "nat \<Rightarrow> bool" where
  "is_line_terminator c = (c = 10 \<or> c = 13 \<or> c = 8232 \<or> c = 8233)"

definition is_white_space :: "nat \<Rightarrow> bool" where
  "is_white_space c =
     (c = 9 \<or> c = 11 \<or> c = 12 \<or> c = 32 \<or> c = 160 \<or> c = 5760 \<or> (8192 \<le> c \<and> c \<le> 8202)
      \<or> c = 8239 \<or> c = 8287 \<or> c = 12288 \<or> c = 65279 \<or> is_line_terminator c)"

definition trim :: "jsstring \<Rightarrow> jsstring" where
  "trim s = rev (dropWhile is_white_space (rev (dropWhile is_white_space s)))"

definition is_digit :: "nat \<Rightarrow> bool" where
  "is_digit c = (48 \<le> c \<and> c \<le> 57)"

text \<open>A number in a template literal: the decimal digits of a natural number.\<close>

fun digits_of :: "nat \<Rightarrow> jsstring" where
  "digits_of n = (if n < 10 then [48 + n] else digits_of (n div 10) @ [48 + n mod 10])"

declare digits_of.simps [simp del]

section \<open>\<open>JSON.parse\<close>\<close>

text \<open>
  The values \<open>JSON.parse\<close> returns.  \<open>parseRsc\<close> only asks whether a value is a string
  or an array, so a number keeps its literal text instead of a floating-point value and
  an object keeps its members in source order.
\<close>

datatype json =
    JNull
  | JBool bool
  | JNumber jsstring
  | JString jsstring
  | JArray "json list"
  | JObject "(jsstring \<times> json) list"

datatype error = SyntaxError | RangeError | Error jsstring

datatype token =
    TLBracket | TRBracket | TLBrace | TRBrace | TComma | TColon
  | TString jsstring | TNumber jsstring | TTrue | TFalse | TNull

definition is_json_ws :: "nat \<Rightarrow> bool" where
  "is_json_ws c = (c = 9 \<or> c = 10 \<or> c = 13 \<or> c = 32)"

definition hex_val :: "nat \<Rightarrow> nat option" where
  "hex_val c =
     (if 48 \<le> c \<and> c \<le> 57 then Some (c - 48)
      else if 65 \<le> c \<and> c \<le> 70 then Some (c - 55)
      else if 97 \<le> c \<and> c \<le> 102 then Some (c - 87)
      else None)"

definition hex4 :: "nat \<Rightarrow> nat \<Rightarrow> nat \<Rightarrow> nat \<Rightarrow> nat option" where
  "hex4 h1 h2 h3 h4 =
     (case hex_val h1 of None \<Rightarrow> None | Some a \<Rightarrow>
      (case hex_val h2 of None \<Rightarrow> None | Some b \<Rightarrow>
       (case hex_val h3 of None \<Rightarrow> None | Some c \<Rightarrow>
        (case hex_val h4 of None \<Rightarrow> None | Some d \<Rightarrow>
           Some (4096 * a + 256 * b + 16 * c + d)))))"

text \<open>The code unit an escape \<open>\e\<close> stands for: quote, backslash, slash, b, f, n, r, t.\<close>

definition simple_escape :: "nat \<Rightarrow> nat option" where
  "simple_escape e =
     (if e = 34 then Some 34 else if e = 92 then Some 92 else if e = 47 then Some 47
      else if e = 98 then Some 8 else if e = 102 then Some 12 else if e = 110 then Some 10
      else if e = 114 then Some 13 else if e = 116 then Some 9 else None)"

text \<open>
  A string literal, read from behind its opening quote: the decoded string and the number
  of code units read, closing quote included.  \<open>None\<close> is a syntax error: no closing
  quote, a raw control character, a bad escape.
\<close>

fun lex_string :: "jsstring \<Rightarrow> (jsstring \<times> nat) option" where
  "lex_string [] = None"
| "lex_string (c # cs) =
     (if c = 34 then Some ([], 1)
      else if c = 92 then
        (case cs of
           [] \<Rightarrow> None
         | e # es \<Rightarrow>
            (if e = 117 then
               (case es of
                  h1 # h2 # h3 # h4 # rest \<Rightarrow>
                    (case hex4 h1 h2 h3 h4 of
                       None \<Rightarrow> None
                     | Some u \<Rightarrow> map_option (\<lambda>(s, n). (u # s, n + 6)) (lex_string rest))
                | _ \<Rightarrow> None)
             else
               (case simple_escape e of
                  None \<Rightarrow> None
                | Some v \<Rightarrow> map_option (\<lambda>(s, n). (v # s, n + 2)) (lex_string es))))
      else if c < 32 then None
      else map_option (\<lambda>(s, n). (c # s, n + 1)) (lex_string cs))"

text \<open>
  A number literal \<open>-? (0 | [1-9][0-9]*) (. [0-9]+)? ([eE] [+-]? [0-9]+)?\<close> at the head of
  the text: its length.  A fraction point or an exponent mark without digits is a syntax
  error.
\<close>

definition digits_len :: "jsstring \<Rightarrow> nat" where
  "digits_len cs = length (takeWhile is_digit cs)"

definition lex_frac :: "jsstring \<Rightarrow> nat option" where
  "lex_frac cs =
     (case cs of
        [] \<Rightarrow> Some 0
      | c # ds \<Rightarrow>
         (if c = 46 then (if digits_len ds = 0 then None else Some (1 + digits_len ds))
          else Some 0))"

definition lex_exp :: "jsstring \<Rightarrow> nat option" where
  "lex_exp cs =
     (case cs of
        [] \<Rightarrow> Some 0
      | c # r \<Rightarrow>
         (if c = 101 \<or> c = 69 then
            (let s = (case r of [] \<Rightarrow> 0 | x # _ \<Rightarrow> if x = 43 \<or> x = 45 then 1 else (0::nat));
                 n = digits_len (drop s r)
             in if n = 0 then None else Some (1 + s + n))
          else Some 0))"

definition lex_number :: "jsstring \<Rightarrow> nat option" where
  "lex_number cs =
     (let m = (case cs of [] \<Rightarrow> 0 | c # _ \<Rightarrow> if c = 45 then 1 else (0::nat)) in
      (case drop m cs of
         [] \<Rightarrow> None
       | d # ds \<Rightarrow>
          (if \<not> is_digit d then None
           else
             (let i = (if d = 48 then 1 else 1 + digits_len ds) in
              (case lex_frac (drop i (d # ds)) of
                 None \<Rightarrow> None
               | Some f \<Rightarrow>
                  (case lex_exp (drop (i + f) (d # ds)) of
                     None \<Rightarrow> None
                   | Some e \<Rightarrow> Some (m + i + f + e)))))))"

text \<open>The tokens of a JSON text; white space (tab, line feed, carriage return, space)
  separates them.\<close>

fun lex :: "jsstring \<Rightarrow> token list option" where
  "lex [] = Some []"
| "lex (c # cs) =
     (if is_json_ws c then lex cs
      else if c = 91 then map_option ((#) TLBracket) (lex cs)
      else if c = 93 then map_option ((#) TRBracket) (lex cs)
      else if c = 123 then map_option ((#) TLBrace) (lex cs)
      else if c = 125 then map_option ((#) TRBrace) (lex cs)
      else if c = 44 then map_option ((#) TComma) (lex cs)
      else if c = 58 then map_option ((#) TColon) (lex cs)
      else if c = 34 then
        (case lex_string cs of
           None \<Rightarrow> None
         | Some (s, n) \<Rightarrow> map_option ((#) (TString s)) (lex (drop n cs)))
      else if c = 45 \<or> is_digit c then
        (case lex_number (c # cs) of
           None \<Rightarrow> None
         | Some n \<Rightarrow> map_option ((#) (TNumber (take n (c # cs)))) (lex (drop (n - 1) cs)))
      else if prefix (js ''true'') (c # cs) then map_option ((#) TTrue) (lex (drop 3 cs))
      else if prefix (js ''false'') (c # cs) then map_option ((#) TFalse) (lex (drop 4 cs))
      else if prefix (js ''null'') (c # cs) then map_option ((#) TNull) (lex (drop 3 cs))
      else None)"

text \<open>
  The grammar of JSON values over the tokens, as a pushdown automaton: a stack of the
  arrays and objects that are still open, and what may come next.
\<close>

datatype frame =
    ArrayFrame "json list"
  | ObjectFrame "(jsstring \<times> json) list"
  | MemberFrame "(jsstring \<times> json) list" jsstring

datatype expect = WantValue | WantValueOrClose | WantKeyOrClose | WantKey | WantColon | HaveValue json

definition start_value :: "token \<Rightarrow> frame list \<Rightarrow> (expect \<times> frame list) option" where
  "start_value t stack =
     (case t of
        TString s \<Rightarrow> Some (HaveValue (JString s), stack)
      | TNumber l \<Rightarrow> Some (HaveValue (JNumber l), stack)
      | TTrue \<Rightarrow> Some (HaveValue (JBool True), stack)
      | TFalse \<Rightarrow> Some (HaveValue (JBool False), stack)
      | TNull \<Rightarrow> Some (HaveValue JNull, stack)
      | TLBracket \<Rightarrow> Some (WantValueOrClose, ArrayFrame [] # stack)
      | TLBrace \<Rightarrow> Some (WantKeyOrClose, ObjectFrame [] # stack)
      | _ \<Rightarrow> None)"

definition start_key :: "token \<Rightarrow> frame list \<Rightarrow> (expect \<times> frame list) option" where
  "start_key t stack =
     (case (t, stack) of
        (TString k, ObjectFrame ms # rest) \<Rightarrow> Some (WantColon, MemberFrame ms k # rest)
      | _ \<Rightarrow> None)"

definition after_value :: "json \<Rightarrow> token \<Rightarrow> frame list \<Rightarrow> (expect \<times> frame list) option" where
  "after_value v t stack =
     (case stack of
        ArrayFrame items # rest \<Rightarrow>
          (case t of
             TComma \<Rightarrow> Some (WantValue, ArrayFrame (v # items) # rest)
           | TRBracket \<Rightarrow> Some (HaveValue (JArray (rev (v # items))), rest)
           | _ \<Rightarrow> None)
      | MemberFrame ms k # rest \<Rightarrow>
          (case t of
             TComma \<Rightarrow> Some (WantKey, ObjectFrame ((k, v) # ms) # rest)
           | TRBrace \<Rightarrow> Some (HaveValue (JObject (rev ((k, v) # ms))), rest)
           | _ \<Rightarrow> None)
      | _ \<Rightarrow> None)"

definition parse_step :: "expect \<times> frame list \<Rightarrow> token \<Rightarrow> (expect \<times> frame list) option" where
  "parse_step st t =
     (case st of
        (WantValue, stack) \<Rightarrow> start_value t stack
      | (WantValueOrClose, stack) \<Rightarrow>
          (case (t, stack) of
             (TRBracket, ArrayFrame items # rest) \<Rightarrow> Some (HaveValue (JArray (rev items)), rest)
           | _ \<Rightarrow> start_value t stack)
      | (WantKeyOrClose, stack) \<Rightarrow>
          (case (t, stack) of
             (TRBrace, ObjectFrame ms # rest) \<Rightarrow> Some (HaveValue (JObject (rev ms)), rest)
           | _ \<Rightarrow> start_key t stack)
      | (WantKey, stack) \<Rightarrow> start_key t stack
      | (WantColon, stack) \<Rightarrow> (case t of TColon \<Rightarrow> Some (WantValue, stack) | _ \<Rightarrow> None)
      | (HaveValue v, stack) \<Rightarrow> after_value v t stack)"

fun parse_tokens :: "expect \<times> frame list \<Rightarrow> token list \<Rightarrow> json option" where
  "parse_tokens st [] = (case st of (HaveValue v, []) \<Rightarrow> Some v | _ \<Rightarrow> None)"
| "parse_tokens st (t # ts) =
     (case parse_step st t of None \<Rightarrow> None | Some st' \<Rightarrow> parse_tokens st' ts)"

text \<open>\<open>JSON.parse(text)\<close>: the value, or the \<open>SyntaxError\<close> it throws.\<close>

definition JSON_parse :: "jsstring \<Rightarrow> error + json" where
  "JSON_parse text =
     (case lex text of
        None \<Rightarrow> Inl SyntaxError
      | Some ts \<Rightarrow>
         (case parse_tokens (WantValue, []) ts of
            None \<Rightarrow> Inl SyntaxError
          | Some v \<Rightarrow> Inr v))"

section \<open>\<open>parseRsc\<close>: strings of a React Server Component payload\<close>

text \<open>
  The row pattern \<open>/^(\d+):(.+)$/\<close>: ASCII digits, a colon, and a rest that is not empty
  and has no line terminator (the dot matches none, and without the \<open>m\<close> flag the
  anchors are the ends of the text).  The result is the second group, the payload.
\<close>

definition row_payload :: "jsstring \<Rightarrow> jsstring option" where
  "row_payload trimmed =
     (if takeWhile is_digit trimmed = [] then None
      else
        (case dropWhile is_digit trimmed of
           [] \<Rightarrow> None
         | c # payload \<Rightarrow>
            (if c = 58 \<and> payload \<noteq> [] \<and> list_all (\<lambda>x. \<not> is_line_terminator x) payload
             then Some payload else None)))"

text \<open>
  One attempt of the pattern \<open>/"((?:[^"\\]|\\.)*)"/\<close> behind an opening quote: the number
  of code units up to and including the closing quote.  The two alternatives of the group
  exclude each other on their first code unit, so backtracking finds nothing else.

  The engine keeps a choice point for every round of the group on the backtrack stack of
  the regular expression, and the stack is bounded: in V8, the engine of Node.js, a match
  attempt has room for 8388573 rounds, and \<open>match\<close> throws a \<open>RangeError\<close> in the next one
  (a quoted string of 8388574 characters).  \<open>room\<close> is the number of rounds that are
  left.
\<close>

definition regexp_stack_room :: nat where
  "regexp_stack_room = 8388573"

fun quoted_len :: "nat \<Rightarrow> jsstring \<Rightarrow> error + nat option" where
  "quoted_len room [] = Inr None"
| "quoted_len room (c # cs) =
     (if c = 34 then Inr (Some 1)
      else if c = 92 then
        (case cs of
           [] \<Rightarrow> Inr None
         | e # es \<Rightarrow>
            (if is_line_terminator e then Inr None
             else if room = 0 then Inl RangeError
             else
               (case quoted_len (room - 1) es of
                  Inl err \<Rightarrow> Inl err
                | Inr None \<Rightarrow> Inr None
                | Inr (Some n) \<Rightarrow> Inr (Some (n + 2)))))
      else if room = 0 then Inl RangeError
      else
        (case quoted_len (room - 1) cs of
           Inl err \<Rightarrow> Inl err
         | Inr None \<Rightarrow> Inr None
         | Inr (Some n) \<Rightarrow> Inr (Some (Suc n))))"

text \<open>\<open>payload.match(/"((?:[^"\\]|\\.)*)"/g)\<close>: all matches, left to right, each search
  starting where the last match ended; no match (\<open>null\<close>) is the empty list.  The
  exception of a match attempt is the exception of the call.\<close>

fun scan_quoted :: "jsstring \<Rightarrow> error + jsstring list" where
  "scan_quoted [] = Inr []"
| "scan_quoted (c # cs) =
     (if c = 34 then
        (case quoted_len regexp_stack_room cs of
           Inl err \<Rightarrow> Inl err
         | Inr None \<Rightarrow> scan_quoted cs
         | Inr (Some n) \<Rightarrow>
            (case scan_quoted (drop n cs) of
               Inl err \<Rightarrow> Inl err
             | Inr matches \<Rightarrow> Inr ((c # take n cs) # matches)))
      else scan_quoted cs)"

text \<open>The body of the loop over the items of a parsed array (lines 94-100).\<close>

definition array_item :: "json \<Rightarrow> jsstring list" where
  "array_item item =
     (case item of
        JString s \<Rightarrow>
          (if length s > 20 then
             (if \<not> startsWith s (js ''$'') \<and> \<not> startsWith s (js ''@'') \<and> \<not> startsWith s (js ''['')
              then [s] else [])
           else [])
      | _ \<Rightarrow> [])"

text \<open>The \<open>try\<close> block (lines 80-101): the strings it pushes, or the exception of
  \<open>JSON.parse\<close>.\<close>

definition try_block :: "jsstring \<Rightarrow> error + jsstring list" where
  "try_block payload =
     (case JSON_parse payload of
        Inl e \<Rightarrow> Inl e
      | Inr parsed \<Rightarrow>
          Inr (case parsed of
                 JString s \<Rightarrow>
                   (if length s > 20 then
                      (if \<not> startsWith s (js ''$'') \<and> \<not> startsWith s (js ''@'') then [s] else [])
                    else [])
               | JArray items \<Rightarrow> concat (map array_item items)
               | _ \<Rightarrow> []))"

text \<open>The inner \<open>try\<close> block (lines 107-114) for one match of the fallback scan.\<close>

definition decode_match :: "jsstring \<Rightarrow> error + jsstring list" where
  "decode_match m =
     (case JSON_parse m of
        Inl e \<Rightarrow> Inl e
      | Inr content \<Rightarrow>
          Inr (case content of
                 JString s \<Rightarrow>
                   (if length s > 20 then
                      (if \<not> startsWith s (js ''$'') \<and> \<not> startsWith s (js ''@'') then [s] else [])
                    else [])
               | _ \<Rightarrow> []))"

text \<open>The \<open>catch\<close> block (lines 102-119).  The call of \<open>match\<close> (line 104) stands in
  front of the inner \<open>try\<close>, so its exception leaves the block; the inner \<open>catch\<close> ignores
  the exception of \<open>JSON.parse\<close> on a match.\<close>

definition catch_block :: "jsstring \<Rightarrow> error + jsstring list" where
  "catch_block payload =
     (case scan_quoted payload of
        Inl e \<Rightarrow> Inl e
      | Inr stringMatches \<Rightarrow>
          Inr (concat (map (\<lambda>m. case decode_match m of Inl e \<Rightarrow> [] | Inr xs \<Rightarrow> xs)
                           stringMatches)))"

definition process_payload :: "jsstring \<Rightarrow> error + jsstring list" where
  "process_payload payload =
     (case try_block payload of
        Inr xs \<Rightarrow> Inr xs
      | Inl e \<Rightarrow> catch_block payload)"

text \<open>One round of the loop over the lines: the strings it adds to \<open>extracted\<close>.\<close>

definition process_line :: "jsstring \<Rightarrow> error + jsstring list" where
  "process_line line =
     (let trimmed = trim line in
      if trimmed = [] \<or> startsWith trimmed (js ''#'') then Inr []
      else
        (case row_payload trimmed of
           None \<Rightarrow> Inr []
         | Some payload \<Rightarrow> process_payload payload))"

fun for_lines :: "jsstring list \<Rightarrow> jsstring list \<Rightarrow> error + jsstring list" where
  "for_lines [] extracted = Inr extracted"
| "for_lines (line # lines) extracted =
     (case process_line line of
        Inl e \<Rightarrow> Inl e
      | Inr xs \<Rightarrow> for_lines lines (extracted @ xs))"

definition parseRsc :: "jsstring \<Rightarrow> error + jsstring" where
  "parseRsc data =
     (case for_lines (js_split 10 data) [] of
        Inl e \<Rightarrow> Inl e
      | Inr extracted \<Rightarrow> Inr (js_join [10, 10] extracted))"

section \<open>The network, the URL library and the cancellation signal\<close>

text \<open>
  What the program gets from outside is a parameter of the model.  \<open>url_protocol\<close> is
  \<open>new URL(url).protocol\<close> and \<open>url_resolve location base\<close> is
  \<open>new URL(location, base).toString()\<close>, each with the exception the constructor throws
  on text that is no URL.  \<open>net\<close> is the answer to a request: the response (the callback
  of \<open>client.get\<close> runs) or the \<open>error\<close> event of the request.  \<open>aborted\<close> is
  \<open>signal?.aborted\<close>.  The answer and the state of the signal may depend on the requests
  made before, given as the list of their URLs.  Every request is taken to be answered:
  a server that never answers is outside the model.
\<close>

record response =
  res_statusCode :: nat
  res_location :: "jsstring option"
  res_content_type :: "jsstring option"
  res_body :: jsstring

datatype reply = Response response | ErrorEvent error

record article =
  title :: jsstring
  content :: "jsstring option"

text \<open>
  The libraries of the HTML branch: \<open>jsdom_new data url\<close> is the exception of
  \<open>new JSDOM(data, {url})\<close>, if it throws; \<open>readability_parse\<close> is
  \<open>new Readability(document).parse()\<close>, an article or \<open>null\<close>; \<open>script_texts\<close> are the
  \<open>textContent\<close> of the \<open>script\<close> elements that \<open>querySelectorAll\<close> finds behind it;
  \<open>turndown\<close> is \<open>turndownService.turndown\<close>.
\<close>

record env =
  url_protocol :: "jsstring \<Rightarrow> error + jsstring"
  url_resolve :: "jsstring \<Rightarrow> jsstring \<Rightarrow> error + jsstring"
  net :: "jsstring list \<Rightarrow> jsstring \<Rightarrow> reply"
  aborted :: "jsstring list \<Rightarrow> bool"
  jsdom_new :: "jsstring \<Rightarrow> jsstring \<Rightarrow> error option"
  readability_parse :: "jsstring \<Rightarrow> jsstring \<Rightarrow> error + article option"
  script_texts :: "jsstring \<Rightarrow> jsstring \<Rightarrow> jsstring list"
  turndown :: "jsstring \<Rightarrow> error + jsstring"

text \<open>
  The trace of a run: every call of \<open>fetchContent\<close> with its URL and its
  \<open>maxRedirects\<close>, every request handed to \<open>client.get\<close>, every \<open>req.destroy()\<close>, and
  the calls into the libraries of the HTML branch.
\<close>

datatype event =
    Call jsstring int
  | Get jsstring
  | Destroy
  | NewJSDOM
  | ReadabilityParse
  | Turndown

fun requests :: "event list \<Rightarrow> jsstring list" where
  "requests [] = []"
| "requests (Get u # es) = u # requests es"
| "requests (e # es) = requests es"

fun budgets :: "event list \<Rightarrow> int list" where
  "budgets [] = []"
| "budgets (Call u n # es) = n # budgets es"
| "budgets (e # es) = budgets es"

section \<open>\<open>fetchContent\<close>\<close>

text \<open>
  The promise \<open>fetchContent\<close> returns ends in one of three ways.  \<open>Resolved\<close> and
  \<open>Rejected\<close> are the two ways a promise settles.  \<open>Uncaught\<close> is an exception thrown
  inside the response callback: the callback runs from the event loop, long after the
  executor of the promise has returned, so neither \<open>resolve\<close> nor \<open>reject\<close> is ever called;
  the promise stays pending and the exception reaches the host as an uncaught exception.
\<close>

record fetch_result =
  data :: jsstring
  contentType :: jsstring
  statusCode :: nat

datatype 'a promise = Resolved 'a | Rejected error | Uncaught error

text \<open>The test of line 34: a status from 300 to 399 together with a \<open>Location\<close> header
  that is not empty.\<close>

definition is_redirect :: "response \<Rightarrow> bool" where
  "is_redirect res =
     (res_statusCode res \<noteq> 0 \<and> res_statusCode res \<ge> 300 \<and> res_statusCode res < 400 \<and>
      (case res_location res of None \<Rightarrow> False | Some l \<Rightarrow> l \<noteq> []))"

text \<open>The value of line 46: \<open>content-type\<close> or the empty string, \<open>statusCode\<close> or 0.\<close>

definition result_of :: "response \<Rightarrow> fetch_result" where
  "result_of res =
     \<lparr>data = res_body res,
      contentType = (case res_content_type res of None \<Rightarrow> [] | Some c \<Rightarrow> (if c \<noteq> [] then c else [])),
      statusCode = (if res_statusCode res \<noteq> 0 then res_statusCode res else 0)\<rparr>"

text \<open>
  \<open>client.get\<close> throws when the protocol is not the one of the client: the \<open>https\<close>
  client is chosen for \<open>https:\<close> and the \<open>http\<close> client, which expects \<open>http:\<close>, for
  everything else.
\<close>

definition invalid_protocol :: "jsstring \<Rightarrow> error" where
  \<open>invalid_protocol protocol =
     Error (js ''Protocol "'' @ protocol @ js ''" not supported. Expected "http:"'')\<close>

text \<open>
  \<open>fetchContent(url, headers, signal, maxRedirects)\<close> with the trace so far; the result is
  the end of the promise and the longer trace.  Both callers pass no headers, and the
  headers only go to the transport, so they are left out; the signal is the \<open>aborted\<close> of
  the environment.
\<close>

function fetchContent :: "env \<Rightarrow> event list \<Rightarrow> jsstring \<Rightarrow> int \<Rightarrow> fetch_result promise \<times> event list" where
  "fetchContent env log url maxRedirects =
     (if maxRedirects < 0 then
        (Rejected (Error (js ''Too many redirects'')), log @ [Call url maxRedirects])
      else
        (case url_protocol env url of
           Inl e \<Rightarrow> (Rejected e, log @ [Call url maxRedirects])
         | Inr protocol \<Rightarrow>
            (if protocol \<noteq> js ''https:'' \<and> protocol \<noteq> js ''http:'' then
               (Rejected (invalid_protocol protocol), log @ [Call url maxRedirects])
             else if aborted env (requests log) then
               (Rejected (Error (js ''Request aborted'')),
                log @ [Call url maxRedirects, Get url, Destroy])
             else
               (case net env (requests log) url of
                  ErrorEvent e \<Rightarrow> (Rejected e, log @ [Call url maxRedirects, Get url])
                | Response res \<Rightarrow>
                   (if is_redirect res then
                      (case url_resolve env (case res_location res of None \<Rightarrow> [] | Some l \<Rightarrow> l) url of
                         Inl e \<Rightarrow> (Uncaught e, log @ [Call url maxRedirects, Get url])
                       | Inr redirectUrl \<Rightarrow>
                           fetchContent env (log @ [Call url maxRedirects, Get url])
                             redirectUrl (maxRedirects - 1))
                    else (Resolved (result_of res), log @ [Call url maxRedirects, Get url]))))))"
  by pat_completeness auto
termination
  by (relation "measure (\<lambda>(env, log, url, maxRedirects). nat (maxRedirects + 1))") auto

declare fetchContent.simps [simp del]

section \<open>The tool \<open>fetch_url\<close>\<close>

record tool_result =
  content_text :: jsstring
  isError :: bool

text \<open>The test of lines 143-151 on the local response.\<close>

definition isChallenge :: "nat \<Rightarrow> jsstring \<Rightarrow> bool" where
  "isChallenge status body =
     (let lowerData = toLowerCase body in
      status = 403 \<or> status = 429 \<or> status = 503 \<or>
      js_includes lowerData (js ''challenge'') \<or>
      js_includes lowerData (js ''captcha'') \<or>
      js_includes lowerData (js ''cloudflare'') \<or>
      js_includes lowerData (js ''just a moment...''))"

text \<open>The test of lines 212-218 on the body of the proxy.\<close>

definition jina_blocked :: "jsstring \<Rightarrow> bool" where
  "jina_blocked body =
     (let jinaLower = toLowerCase body in
      js_includes jinaLower (js ''challenge'') \<or>
      js_includes jinaLower (js ''captcha'') \<or>
      js_includes jinaLower (js ''cloudflare'') \<or>
      js_includes jinaLower (js ''just a moment...''))"

text \<open>\<open>error instanceof Error ? error.message : String(error)\<close>.  The message of the
  \<open>SyntaxError\<close> of \<open>JSON.parse\<close> is chosen by the engine, and the text here stands for
  it; the message of the \<open>RangeError\<close> is the one of V8.\<close>

fun error_message :: "error \<Rightarrow> jsstring" where
  "error_message (Error m) = m"
| "error_message SyntaxError = js ''Unexpected token''"
| "error_message RangeError = js ''Maximum call stack size exceeded''"

text \<open>The result of the \<open>catch\<close> at the top (lines 242-252).\<close>

definition catch_result :: "error \<Rightarrow> tool_result" where
  \<open>catch_result e =
     \<lparr>content_text =
        js ''Error fetching URL: '' @ error_message e @
        js ''\<newline>\<newline>Please try using the "agent-browser" tool to access this page.'',
      isError = True\<rparr>\<close>

definition success :: "jsstring \<Rightarrow> tool_result" where
  "success t = \<lparr>content_text = t, isError = False\<rparr>"

text \<open>How a part of the \<open>try\<close> block ends: a \<open>return\<close>, an exception, or control goes on
  to the next statement.\<close>

datatype flow = Return tool_result | Throw error | Continue

text \<open>Lines 166-171 and 195-200: \<open>parseRsc\<close> and the test of its length.\<close>

definition rsc_attempt :: "jsstring \<Rightarrow> flow" where
  "rsc_attempt payload =
     (case parseRsc payload of
        Inl e \<Rightarrow> Throw e
      | Inr rscText \<Rightarrow> (if length rscText > 50 then Return (success rscText) else Continue))"

text \<open>The loop over the \<open>script\<close> elements (lines 193-201).\<close>

fun scan_scripts :: "jsstring list \<Rightarrow> flow" where
  "scan_scripts [] = Continue"
| "scan_scripts (textContent # scripts) =
     (if textContent \<noteq> [] \<and> js_includes textContent (js ''self.__next_f.push'') then
        (case rsc_attempt textContent of
           Continue \<Rightarrow> scan_scripts scripts
         | other \<Rightarrow> other)
      else scan_scripts scripts)"

text \<open>
  The readable-document extractor (lines 175-190): \<open>Some\<close> text when Readability finds
  an article whose content is longer than 100, \<open>None\<close> when it does not, or the exception
  of a library.
\<close>

definition readable_document :: "env \<Rightarrow> event list \<Rightarrow> jsstring \<Rightarrow> jsstring \<Rightarrow> (error + jsstring option) \<times> event list" where
  "readable_document env log html url =
     (case jsdom_new env html url of
        Some e \<Rightarrow> (Inl e, log @ [NewJSDOM])
      | None \<Rightarrow>
         (case readability_parse env html url of
            Inl e \<Rightarrow> (Inl e, log @ [NewJSDOM, ReadabilityParse])
          | Inr None \<Rightarrow> (Inr None, log @ [NewJSDOM, ReadabilityParse])
          | Inr (Some a) \<Rightarrow>
             (case content a of
                None \<Rightarrow> (Inr None, log @ [NewJSDOM, ReadabilityParse])
              | Some c \<Rightarrow>
                 (if c \<noteq> [] \<and> length c > 100 then
                    (case turndown env c of
                       Inl e \<Rightarrow> (Inl e, log @ [NewJSDOM, ReadabilityParse, Turndown])
                     | Inr markdown \<Rightarrow>
                        (Inr (Some (js ''# '' @ title a @ js ''\<newline>\<newline>'' @ markdown)),
                         log @ [NewJSDOM, ReadabilityParse, Turndown]))
                  else (Inr None, log @ [NewJSDOM, ReadabilityParse])))))"

text \<open>The branch for \<open>text/html\<close> (lines 173-202).\<close>

definition html_branch :: "env \<Rightarrow> event list \<Rightarrow> jsstring \<Rightarrow> jsstring \<Rightarrow> flow \<times> event list" where
  "html_branch env log html url =
     (case readable_document env log html url of
        (Inl e, log') \<Rightarrow> (Throw e, log')
      | (Inr (Some t), log') \<Rightarrow> (Return (success t), log')
      | (Inr None, log') \<Rightarrow> (scan_scripts (script_texts env html url), log'))"

text \<open>Lines 143-203: what is done with the local response.\<close>

definition local_stage :: "env \<Rightarrow> event list \<Rightarrow> jsstring \<Rightarrow> fetch_result \<Rightarrow> flow \<times> event list" where
  "local_stage env log url r =
     (if isChallenge (statusCode r) (data r) then (Continue, log)
      else if statusCode r \<ge> 200 \<and> statusCode r < 300 then
        (if js_includes (contentType r) (js ''application/json'') \<or>
            js_includes (contentType r) (js ''text/plain'') \<or>
            js_includes (contentType r) (js ''text/markdown'')
         then (Return (success (data r)), log)
         else
           (case (if js_includes (contentType r) (js ''text/x-component'')
                  then rsc_attempt (data r) else Continue) of
              Continue \<Rightarrow>
                (if js_includes (contentType r) (js ''text/html'')
                 then html_branch env log (data r) url
                 else (Continue, log))
            | other \<Rightarrow> (other, log)))
      else (Continue, log))"

text \<open>How a call of \<open>execute\<close> ends for the host: with a tool result, or with no result
  and an exception that nothing caught.\<close>

datatype outcome = Result tool_result | Unhandled error

definition jinaUrl :: "jsstring \<Rightarrow> jsstring" where
  "jinaUrl url = js ''https://r.jina.ai/'' @ url"

text \<open>Lines 205-241: the fallback to the Jina Reader.\<close>

definition proxy_stage :: "env \<Rightarrow> event list \<Rightarrow> jsstring \<Rightarrow> outcome \<times> event list" where
  \<open>proxy_stage env log url =
     (case fetchContent env log (jinaUrl url) 5 of
        (Rejected e, log') \<Rightarrow> (Result (catch_result e), log')
      | (Uncaught e, log') \<Rightarrow> (Unhandled e, log')
      | (Resolved jinaResult, log') \<Rightarrow>
         (if statusCode jinaResult \<ge> 200 \<and> statusCode jinaResult < 300 then
            (if jina_blocked (data jinaResult) then
               (Result
                  \<lparr>content_text =
                     js ''Unable to fetch content due to access restrictions (Jina Reader also blocked).\<newline>Please use the "agent-browser" tool to access this page.'',
                   isError = True\<rparr>, log')
             else (Result (success (data jinaResult)), log'))
          else
            (Result
               \<lparr>content_text =
                  js ''Failed to fetch content via local parser and Jina Reader (Status: '' @
                  digits_of (statusCode jinaResult) @
                  js '').\<newline>Please use the "agent-browser" tool.'',
                isError = True\<rparr>, log')))\<close>

text \<open>\<open>execute(toolCallId, params, signal, _onUpdate, _ctx)\<close> for \<open>params.url = url\<close>, from
  an empty trace.  The other arguments are not used; \<open>new TurndownService()\<close>, the one
  statement in front of the \<open>try\<close>, takes no argument and does not throw.\<close>

definition execute :: "env \<Rightarrow> jsstring \<Rightarrow> outcome \<times> event list" where
  "execute env url =
     (case fetchContent env [] url 5 of
        (Rejected e, log) \<Rightarrow> (Result (catch_result e), log)
      | (Uncaught e, log) \<Rightarrow> (Unhandled e, log)
      | (Resolved r, log) \<Rightarrow>
         (case local_stage env log url r of
            (Return res, log') \<Rightarrow> (Result res, log')
          | (Throw e, log') \<Rightarrow> (Result (catch_result e), log')
          | (Continue, log') \<Rightarrow> proxy_stage env log' url))"

section \<open>Notions of the specification\<close>

text \<open>The fixed keyword set of the challenge detector.\<close>

definition challenge_keywords :: "jsstring list" where
  "challenge_keywords =
     [js ''challenge'', js ''captcha'', js ''cloudflare'', js ''just a moment...'']"

text \<open>An ordinary piece of text between quotes: no quote, no backslash, no control
  character.\<close>

definition plain :: "jsstring \<Rightarrow> bool" where
  "plain s = list_all (\<lambda>c. c \<noteq> 34 \<and> c \<noteq> 92 \<and> c \<ge> 32) s"

text \<open>
  A text whose quotes pair up: every quote opens a quoted string or closes the one that
  is open, no quoted string holds a backslash, and none is left open at the end.
\<close>

fun quotes_closed_from :: "bool \<Rightarrow> jsstring \<Rightarrow> bool" where
  "quotes_closed_from inside [] = (\<not> inside)"
| "quotes_closed_from inside (c # cs) =
     (if c = 34 then quotes_closed_from (\<not> inside) cs
      else if inside then c \<noteq> 92 \<and> quotes_closed_from True cs
      else quotes_closed_from False cs)"

definition quotes_closed :: "jsstring \<Rightarrow> bool" where
  "quotes_closed s = quotes_closed_from False s"

text \<open>
  A request that is really made and answered: the URL parses to \<open>http:\<close> or \<open>https:\<close>
  and the signal is not aborted.
\<close>

definition fetchable :: "env \<Rightarrow> jsstring list \<Rightarrow> jsstring \<Rightarrow> bool" where
  "fetchable env reqs url =
     ((url_protocol env url = Inr (js ''https:'') \<or> url_protocol env url = Inr (js ''http:'')) \<and>
      \<not> aborted env reqs)"

text \<open>
  A redirect chain of length \<open>n\<close> from \<open>url\<close>, after the requests \<open>reqs\<close>: \<open>n\<close> requests
  in a row are answered by redirects whose locations resolve, and the next one by a
  response that is no redirect; the result is that terminal response.
\<close>

fun redirect_chain :: "env \<Rightarrow> jsstring list \<Rightarrow> jsstring \<Rightarrow> nat \<Rightarrow> response option" where
  "redirect_chain env reqs url 0 =
     (if fetchable env reqs url then
        (case net env reqs url of
           ErrorEvent e \<Rightarrow> None
         | Response res \<Rightarrow> (if is_redirect res then None else Some res))
      else None)"
| "redirect_chain env reqs url (Suc n) =
     (if fetchable env reqs url then
        (case net env reqs url of
           ErrorEvent e \<Rightarrow> None
         | Response res \<Rightarrow>
            (if is_redirect res then
               (case url_resolve env (case res_location res of None \<Rightarrow> [] | Some l \<Rightarrow> l) url of
                  Inl e \<Rightarrow> None
                | Inr next_url \<Rightarrow> redirect_chain env (reqs @ [url]) next_url n)
             else None))
      else None)"

text \<open>The first \<open>n\<close> requests from \<open>url\<close> are answered by redirects, whatever comes
  behind them: a chain that has at least \<open>n\<close> hops.\<close>

fun redirect_hops :: "env \<Rightarrow> jsstring list \<Rightarrow> jsstring \<Rightarrow> nat \<Rightarrow> bool" where
  "redirect_hops env reqs url 0 = True"
| "redirect_hops env reqs url (Suc n) =
     (fetchable env reqs url \<and>
      (case net env reqs url of
         ErrorEvent e \<Rightarrow> False
       | Response res \<Rightarrow>
          is_redirect res \<and>
          (case url_resolve env (case res_location res of None \<Rightarrow> [] | Some l \<Rightarrow> l) url of
             Inl e \<Rightarrow> False
           | Inr next_url \<Rightarrow> redirect_hops env (reqs @ [url]) next_url n)))"

text \<open>The budgets \<open>m\<close>, \<open>m - 1\<close>, ... of \<open>n\<close> calls in a row, each one less than the one
  before.\<close>

primrec countdown :: "int \<Rightarrow> nat \<Rightarrow> int list" where
  "countdown m 0 = []"
| "countdown m (Suc n) = m # countdown (m - 1) n"

text \<open>The events \<open>fetchContent\<close> writes to the trace.\<close>

fun is_fetch_event :: "event \<Rightarrow> bool" where
  "is_fetch_event (Call u n) = True"
| "is_fetch_event (Get u) = True"
| "is_fetch_event Destroy = True"
| "is_fetch_event e = False"

section \<open>Example environments\<close>

text \<open>
  A small world for concrete runs.  Its URL parser accepts what starts with \<open>http://\<close> or
  \<open>https://\<close> and goes on, and a location resolves to itself when it is such an absolute
  URL.  It stands for the real parser on the texts of the examples only; the two texts it
  rejects there, \<open>http://\<close> (no host) and \<open>example.com\<close> (no scheme, no base), are
  rejected by the real parser too.  A site gives the answer to each URL, and the
  libraries of the HTML branch find nothing.
\<close>

definition example_protocol :: "jsstring \<Rightarrow> error + jsstring" where
  "example_protocol url =
     (if prefix (js ''https://'') url \<and> length url > 8 then Inr (js ''https:'')
      else if prefix (js ''http://'') url \<and> length url > 7 then Inr (js ''http:'')
      else Inl (Error (js ''Invalid URL'')))"

definition example_resolve :: "jsstring \<Rightarrow> jsstring \<Rightarrow> error + jsstring" where
  "example_resolve location base =
     (case example_protocol location of Inl e \<Rightarrow> Inl e | Inr p \<Rightarrow> Inr location)"

definition example_env :: "(jsstring \<Rightarrow> reply) \<Rightarrow> bool \<Rightarrow> env" where
  "example_env site cancelled =
     \<lparr>url_protocol = example_protocol,
      url_resolve = example_resolve,
      net = (\<lambda>reqs url. site url),
      aborted = (\<lambda>reqs. cancelled),
      jsdom_new = (\<lambda>html url. None),
      readability_parse = (\<lambda>html url. Inr None),
      script_texts = (\<lambda>html url. []),
      turndown = (\<lambda>html. Inr html)\<rparr>"

definition page :: "nat \<Rightarrow> string \<Rightarrow> string \<Rightarrow> reply" where
  "page status ctype body =
     Response \<lparr>res_statusCode = status, res_location = None,
               res_content_type = Some (js ctype), res_body = js body\<rparr>"

definition redirect_to :: "nat \<Rightarrow> string \<Rightarrow> reply" where
  "redirect_to status location =
     Response \<lparr>res_statusCode = status, res_location = Some (js location),
               res_content_type = None, res_body = []\<rparr>"

text \<open>Two redirects, then a page.\<close>

definition redirecting_site :: "jsstring \<Rightarrow> reply" where
  "redirecting_site url =
     (if url = js ''http://a.example/'' then redirect_to 302 ''http://b.example/''
      else if url = js ''http://b.example/'' then redirect_to 301 ''https://c.example/''
      else page 200 ''text/plain'' ''done'')"

text \<open>A site behind a challenge page, which the proxy gets as well.\<close>

definition blocked_site :: "jsstring \<Rightarrow> reply" where
  "blocked_site url =
     (if url = js ''https://example.com/'' then page 503 ''text/html'' ''Service Unavailable''
      else if url = js ''https://r.jina.ai/https://example.com/''
        then page 200 ''text/plain'' ''Just a moment...''
      else ErrorEvent (Error (js ''getaddrinfo ENOTFOUND'')))"

text \<open>A site behind a challenge page, where the proxy gets the challenge page with its
  status 503.\<close>

definition blocked_twice_site :: "jsstring \<Rightarrow> reply" where
  "blocked_twice_site url =
     (if url = js ''https://example.com/'' then page 503 ''text/html'' ''Service Unavailable''
      else if url = js ''https://r.jina.ai/https://example.com/''
        then page 503 ''text/html'' ''Just a moment...''
      else ErrorEvent (Error (js ''getaddrinfo ENOTFOUND'')))"

text \<open>A page that is missing, for which the proxy returns an empty body.\<close>

definition missing_site :: "jsstring \<Rightarrow> reply" where
  "missing_site url =
     (if url = js ''https://example.com/missing'' then page 404 ''text/html'' ''Not Found''
      else if url = js ''https://r.jina.ai/https://example.com/missing''
        then page 200 ''text/plain'' []
      else ErrorEvent (Error (js ''getaddrinfo ENOTFOUND'')))"

text \<open>A server that redirects to a location that is no URL: \<open>Location: http://\<close>.\<close>

definition bad_location_site :: "jsstring \<Rightarrow> reply" where
  "bad_location_site url = redirect_to 302 ''http://''"

text \<open>
  An HTML page without a title: Readability returns an article with the empty title and
  a content of 105 characters, and Turndown its Markdown.
\<close>

definition untitled_env :: env where
  \<open>untitled_env =
     (example_env (\<lambda>url. page 200 ''text/html'' ''<html><body><p>A paragraph of prose that is long enough to count.</p></body></html>'') False)
       \<lparr>readability_parse := (\<lambda>html url. Inr (Some
          \<lparr>title = [],
           content = Some (js ''<div id="readability-page-1" class="page"><p>A paragraph of prose that is long enough to count.</p></div>'')\<rparr>)),
        turndown := (\<lambda>html. Inr (js ''A paragraph of prose that is long enough to count.''))\<rparr>\<close>

text \<open>The same page with a title.\<close>

definition titled_env :: env where
  \<open>titled_env =
     untitled_env
       \<lparr>readability_parse := (\<lambda>html url. Inr (Some
          \<lparr>title = js ''Prose'',
           content = Some (js ''<div id="readability-page-1" class="page"><p>A paragraph of prose that is long enough to count.</p></div>'')\<rparr>))\<rparr>\<close>

section \<open>Evaluation on concrete texts\<close>

lemmas json_eval =
  js_def JSON_parse_def is_json_ws_def parse_step_def start_value_def start_key_def
  after_value_def is_digit_def lex_number_def lex_frac_def lex_exp_def digits_len_def
  simple_escape_def hex4_def hex_val_def

lemmas rsc_eval =
  parseRsc_def process_line_def trim_def is_white_space_def is_line_terminator_def
  startsWith_def row_payload_def process_payload_def try_block_def array_item_def
  catch_block_def decode_match_def regexp_stack_room_def

lemma js_eq_iff: "js a = js b \<longleftrightarrow> a = b"
  unfolding js_def by (rule inj_map_eq_map) (rule inj_onI, simp)

lemma js_Nil_iff: "js a = [] \<longleftrightarrow> a = []" "[] = js a \<longleftrightarrow> a = []"
  by (auto simp: js_def)

lemma js_append: "js a @ js b = js (a @ b)"
  by (simp add: js_def)

lemma prefix_js: "prefix (js a) (js b) \<longleftrightarrow> prefix a b"
proof (induction a arbitrary: b)
  case Nil
  then show ?case by (simp add: js_def)
next
  case (Cons x xs)
  then show ?case by (cases b) (auto simp: js_def)
qed

lemma length_js: "length (js a) = length a"
  by (simp add: js_def)

lemmas js_simps = js_eq_iff js_Nil_iff js_append prefix_js length_js

lemmas env_eval =
  example_env_def example_protocol_def example_resolve_def page_def redirect_to_def
  is_redirect_def result_of_def fetchable_def js_simps


lemmas site_eval =
  example_env_def example_protocol_def example_resolve_def page_def redirect_to_def
  is_redirect_def result_of_def js_simps

lemmas lower_eval = toLowerCase_def toLowerCase_unit_def js_def

section \<open>Substring search\<close>

lemma js_includes_iff: "js_includes s sub \<longleftrightarrow> (\<exists>pre post. s = pre @ sub @ post)"
proof (induction s)
  case Nil
  then show ?case by auto
next
  case (Cons c cs)
  show ?case
  proof
    assume "js_includes (c # cs) sub"
    then consider "prefix sub (c # cs)" | "js_includes cs sub" by auto
    then show "\<exists>pre post. c # cs = pre @ sub @ post"
    proof cases
      case 1
      then obtain post where "c # cs = sub @ post" by (auto simp: prefix_def)
      then have "c # cs = [] @ sub @ post" by simp
      then show ?thesis by blast
    next
      case 2
      with Cons.IH obtain pre post where "cs = pre @ sub @ post" by blast
      then have "c # cs = (c # pre) @ sub @ post" by simp
      then show ?thesis by blast
    qed
  next
    assume "\<exists>pre post. c # cs = pre @ sub @ post"
    then obtain pre post where eq: "c # cs = pre @ sub @ post" by blast
    show "js_includes (c # cs) sub"
    proof (cases pre)
      case Nil
      with eq have "prefix sub (c # cs)" by (simp add: prefix_def)
      then show ?thesis by simp
    next
      case (Cons p pre')
      with eq have "cs = pre' @ sub @ post" by simp
      with Cons.IH have "js_includes cs sub" by blast
      then show ?thesis by simp
    qed
  qed
qed

lemma includes_lower_iff:
  "js_includes (toLowerCase body) kw \<longleftrightarrow> (\<exists>pre w post. body = pre @ w @ post \<and> toLowerCase w = kw)"
proof
  assume "js_includes (toLowerCase body) kw"
  then obtain p q where "map toLowerCase_unit body = p @ kw @ q"
    unfolding js_includes_iff toLowerCase_def by blast
  then have "\<exists>pre rest. body = pre @ rest \<and> p = map toLowerCase_unit pre \<and> kw @ q = map toLowerCase_unit rest"
    by (simp add: map_eq_append_conv)
  then obtain pre rest where b: "body = pre @ rest" and r: "kw @ q = map toLowerCase_unit rest"
    by blast
  from r have "\<exists>w post. rest = w @ post \<and> kw = map toLowerCase_unit w \<and> q = map toLowerCase_unit post"
    by (simp add: append_eq_map_conv)
  then obtain w post where "rest = w @ post" and "map toLowerCase_unit w = kw"
    by auto
  with b show "\<exists>pre w post. body = pre @ w @ post \<and> toLowerCase w = kw"
    unfolding toLowerCase_def by blast
next
  assume "\<exists>pre w post. body = pre @ w @ post \<and> toLowerCase w = kw"
  then obtain pre w post where "body = pre @ w @ post" and "toLowerCase w = kw" by blast
  then have "toLowerCase body = toLowerCase pre @ kw @ toLowerCase post"
    by (simp add: toLowerCase_def)
  then show "js_includes (toLowerCase body) kw"
    unfolding js_includes_iff by blast
qed

section \<open>Where \<open>parseRsc\<close> returns and where it throws\<close>

text \<open>On a text of up to 8388574 characters no match attempt runs out of stack, and
  \<open>parseRsc\<close> returns a string.\<close>


lemma quoted_len_bounded:
  "length cs \<le> room \<Longrightarrow> \<exists>r. quoted_len room cs = Inr r"
proof (induction "length cs" arbitrary: cs room rule: less_induct)
  case less
  show ?case
  proof (cases cs)
    case Nil
    then show ?thesis by simp
  next
    case (Cons c cs')
    with less.prems have room: "room \<noteq> 0" and l1: "length cs' \<le> room - 1" by auto
    from less.hyps [of cs' "room - 1"] Cons l1
    obtain r1 where r1: "quoted_len (room - 1) cs' = Inr r1" by auto
    show ?thesis
    proof (cases "c = 92")
      case False
      with Cons room r1 show ?thesis by (cases r1) auto
    next
      case True
      show ?thesis
      proof (cases cs')
        case Nil
        with Cons True show ?thesis by simp
      next
        case e: (Cons e es)
        with l1 have "length es \<le> room - 1" by simp
        with less.hyps [of es "room - 1"] Cons e
        obtain r2 where "quoted_len (room - 1) es = Inr r2" by auto
        with Cons True e room show ?thesis by (cases r2) auto
      qed
    qed
  qed
qed

lemma scan_quoted_bounded:
  "length cs \<le> Suc regexp_stack_room \<Longrightarrow> \<exists>ms. scan_quoted cs = Inr ms"
proof (induction "length cs" arbitrary: cs rule: less_induct)
  case less
  show ?case
  proof (cases cs)
    case Nil
    then show ?thesis by simp
  next
    case (Cons c cs')
    from less.hyps [of cs'] less.prems Cons
    obtain m1 where m1: "scan_quoted cs' = Inr m1" by auto
    show ?thesis
    proof (cases "c = 34")
      case False
      with Cons m1 show ?thesis by simp
    next
      case True
      from less.prems Cons have "length cs' \<le> regexp_stack_room" by simp
      then obtain r where r: "quoted_len regexp_stack_room cs' = Inr r"
        using quoted_len_bounded by blast
      show ?thesis
      proof (cases r)
        case None
        with Cons True r m1 show ?thesis by simp
      next
        case (Some n)
        have "length (drop n cs') < length cs" using Cons by simp
        moreover have "length (drop n cs') \<le> Suc regexp_stack_room"
          using less.prems Cons by simp
        ultimately obtain m2 where "scan_quoted (drop n cs') = Inr m2"
          using less.hyps [of "drop n cs'"] by auto
        with Cons True r Some show ?thesis by simp
      qed
    qed
  qed
qed

lemma process_payload_bounded:
  assumes "length payload \<le> Suc regexp_stack_room"
  shows "\<exists>xs. process_payload payload = Inr xs"
proof -
  obtain ms where "scan_quoted payload = Inr ms" using scan_quoted_bounded [OF assms] by blast
  then show ?thesis
    by (cases "try_block payload") (simp_all add: process_payload_def catch_block_def)
qed

lemma length_trim: "length (trim s) \<le> length s"
proof -
  have "length (dropWhile is_white_space (rev (dropWhile is_white_space s))) \<le>
      length (rev (dropWhile is_white_space s))"
    by (rule length_dropWhile_le)
  also have "\<dots> \<le> length s" by (simp add: length_dropWhile_le)
  finally show ?thesis by (simp add: trim_def)
qed

lemma length_row_payload: "row_payload t = Some p \<Longrightarrow> length p \<le> length t"
proof -
  assume a: "row_payload t = Some p"
  then obtain c where "dropWhile is_digit t = c # p"
    by (auto simp: row_payload_def split: if_splits list.splits)
  then have "Suc (length p) = length (dropWhile is_digit t)" by simp
  also have "\<dots> \<le> length t" by (rule length_dropWhile_le)
  finally show ?thesis by simp
qed

lemma process_line_bounded:
  assumes "length line \<le> Suc regexp_stack_room"
  shows "\<exists>xs. process_line line = Inr xs"
proof (cases "row_payload (trim line)")
  case None
  then show ?thesis by (simp add: process_line_def Let_def)
next
  case (Some p)
  then have "length p \<le> length (trim line)" by (rule length_row_payload)
  with length_trim [of line] assms have "length p \<le> Suc regexp_stack_room" by simp
  then obtain xs where "process_payload p = Inr xs" using process_payload_bounded by blast
  with Some show ?thesis by (simp add: process_line_def Let_def)
qed

lemma length_js_split: "l \<in> set (js_split sep s) \<Longrightarrow> length l \<le> length s"
proof (induction s arbitrary: l)
  case Nil
  then show ?case by simp
next
  case (Cons c cs)
  show ?case
  proof (cases "c = sep")
    case True
    with Cons show ?thesis by (auto simp: le_SucI)
  next
    case False
    obtain x xs where sp: "js_split sep cs = x # xs"
      by (cases "js_split sep cs") (cases cs; simp split: if_splits list.splits)+
    with Cons.IH have "length x \<le> length cs" and "\<And>y. y \<in> set xs \<Longrightarrow> length y \<le> length cs"
      by auto
    with Cons.prems False sp show ?thesis by (auto simp: le_SucI)
  qed
qed

lemma for_lines_bounded:
  "list_all (\<lambda>l. length l \<le> Suc regexp_stack_room) lines \<Longrightarrow>
     \<exists>xs. for_lines lines extracted = Inr xs"
proof (induction lines arbitrary: extracted)
  case Nil
  then show ?case by simp
next
  case (Cons line lines)
  then obtain xs where "process_line line = Inr xs" using process_line_bounded by auto
  with Cons show ?case by simp
qed

lemma parseRsc_returns_when_short:
  assumes "length raw \<le> Suc regexp_stack_room"
  shows "\<exists>s. parseRsc raw = Inr s"
proof -
  have "list_all (\<lambda>l. length l \<le> Suc regexp_stack_room) (js_split 10 raw)"
    using length_js_split [of _ 10 raw] assms by (auto simp: list_all_iff intro: order_trans)
  then obtain xs where "for_lines (js_split 10 raw) [] = Inr xs"
    using for_lines_bounded by blast
  then show ?thesis by (simp add: parseRsc_def)
qed

lemma quoted_len_overflow:
  "34 \<notin> set s \<Longrightarrow> 92 \<notin> set s \<Longrightarrow> room < length s \<Longrightarrow>
     quoted_len room (s @ rest) = Inl RangeError"
proof (induction s arbitrary: room)
  case Nil
  then show ?case by simp
next
  case (Cons c s)
  show ?case
  proof (cases "room = 0")
    case True
    with Cons.prems show ?thesis by simp
  next
    case False
    with Cons.prems have "room - 1 < length s" by simp
    with Cons have "quoted_len (room - 1) (s @ rest) = Inl RangeError" by simp
    with Cons.prems False show ?thesis by simp
  qed
qed

lemma js_split_no_separator: "sep \<notin> set s \<Longrightarrow> js_split sep s = [s]"
  by (induction s) auto

lemma parseRsc_one_line:
  "10 \<notin> set raw \<Longrightarrow>
     parseRsc raw =
       (case process_line raw of Inl e \<Rightarrow> Inl e | Inr xs \<Rightarrow> Inr (js_join [10, 10] xs))"
  by (simp add: parseRsc_def js_split_no_separator split: sum.splits)

lemma parseRsc_overflow:
  assumes "regexp_stack_room < n"
  shows "parseRsc ([49, 58, 120, 34] @ replicate n 97 @ [34]) = Inl RangeError"
proof -
  let ?payload = "120 # 34 # replicate n 97 @ [34]"
  let ?line = "49 # 58 # ?payload"
  have n0: "n \<noteq> 0" using assms by simp
  have sp: "parseRsc ?line =
      (case process_line ?line of Inl e \<Rightarrow> Inl e | Inr xs \<Rightarrow> Inr (js_join [10, 10] xs))"
    by (rule parseRsc_one_line) (simp add: n0)
  have tr: "trim ?line = ?line"
    by (simp add: trim_def is_white_space_def is_line_terminator_def)
  have rp: "row_payload ?line = Some ?payload"
    by (simp add: row_payload_def is_digit_def is_line_terminator_def list_all_iff n0)
  have jp: "JSON_parse ?payload = Inl SyntaxError"
    by (simp add: JSON_parse_def is_json_ws_def is_digit_def js_def)
  have ql: "quoted_len regexp_stack_room (replicate n 97 @ [34]) = Inl RangeError"
    by (rule quoted_len_overflow) (simp_all add: n0 assms)
  have "process_payload ?payload = Inl RangeError"
    by (simp add: process_payload_def try_block_def jp catch_block_def ql)
  then have pl: "process_line ?line = Inl RangeError"
    by (simp add: process_line_def tr rp startsWith_def js_def)
  show ?thesis
    by (simp only: sp pl sum.case append_Cons append_Nil)
qed

text \<open>
  Claim C4 says that \<open>parseRsc\<close> is total: that it returns a string for every input and
  never throws, every failure of a parse being recovered where it happens.  The code
  wraps both calls of \<open>JSON.parse\<close> in a \<open>try\<close>, but the call of \<open>match\<close> at line 104
  stands in the outer \<open>catch\<close> block in front of the inner \<open>try\<close>.  On a line whose
  payload is no JSON and holds a quoted string of 8388574 characters, \<open>match\<close> throws a
  \<open>RangeError\<close> and \<open>parseRsc\<close> throws it on.
\<close>

theorem parseRsc_throws_on_long_quote:
  \<open>parseRsc (js ''1:x"'' @ replicate 8388574 97 @ js ''"'') = Inl RangeError\<close>
proof -
  have "regexp_stack_room < 8388574" by (simp add: regexp_stack_room_def)
  then have "parseRsc ([49, 58, 120, 34] @ replicate 8388574 97 @ [34]) = Inl RangeError"
    by (rule parseRsc_overflow)
  then show ?thesis by (simp add: js_def)
qed

section \<open>The challenge detector\<close>

text \<open>
  Claim C3.  The test on the local response is true for every status 403, 429 and 503,
  whatever the body; it is true when some part of the body is one of the keywords
  \<open>challenge\<close>, \<open>captcha\<close>, \<open>cloudflare\<close>, \<open>just a moment...\<close> in any letter case
  (a part whose lower-cased form is the keyword); and for status 200 it is false when no
  part of the body is a keyword in any letter case.
\<close>

theorem challenge_detector:
  "(status = 403 \<or> status = 429 \<or> status = 503 \<longrightarrow> isChallenge status body) \<and>
   (kw \<in> set challenge_keywords \<and> toLowerCase w = kw \<longrightarrow> isChallenge 200 (pre @ w @ post)) \<and>
   ((\<forall>k p u q. k \<in> set challenge_keywords \<and> body = p @ u @ q \<longrightarrow> toLowerCase u \<noteq> k) \<longrightarrow>
      \<not> isChallenge 200 body)"
proof (intro conjI impI)
  assume "status = 403 \<or> status = 429 \<or> status = 503"
  then show "isChallenge status body" by (auto simp: isChallenge_def)
next
  assume "kw \<in> set challenge_keywords \<and> toLowerCase w = kw"
  then have "kw \<in> set challenge_keywords" and "js_includes (toLowerCase (pre @ w @ post)) kw"
    using includes_lower_iff by blast+
  then show "isChallenge 200 (pre @ w @ post)"
    by (auto simp: isChallenge_def challenge_keywords_def)
next
  assume none: "\<forall>k p u q. k \<in> set challenge_keywords \<and> body = p @ u @ q \<longrightarrow> toLowerCase u \<noteq> k"
  have "\<not> js_includes (toLowerCase body) k" if "k \<in> set challenge_keywords" for k
    using none that includes_lower_iff by blast
  then show "\<not> isChallenge 200 body"
    by (simp add: isChallenge_def challenge_keywords_def)
qed

theorem challenge_detector_witness:
  "isChallenge 503 (js ''any body'') \<and>
   isChallenge 200 (js ''Please solve the CaPtChA below'') \<and>
   \<not> isChallenge 200 (js ''Hello world'')"
proof -
  have a: "isChallenge 503 (js ''any body'')"
    using challenge_detector [of 503 "js ''any body''"] by simp
  have "js ''captcha'' \<in> set challenge_keywords \<and> toLowerCase (js ''CaPtChA'') = js ''captcha''"
    by (simp add: challenge_keywords_def toLowerCase_def toLowerCase_unit_def js_def)
  then have "isChallenge 200 (js ''Please solve the '' @ js ''CaPtChA'' @ js '' below'')"
    using challenge_detector [of 0 "[]" "js ''captcha''" "js ''CaPtChA''" "js ''Please solve the ''" "js '' below''"]
    by blast
  then have b: "isChallenge 200 (js ''Please solve the CaPtChA below'')"
    by (simp add: js_def)
  have "\<not> js_includes (toLowerCase (js ''Hello world'')) k" if "k \<in> set challenge_keywords" for k
    using that by (auto simp: challenge_keywords_def toLowerCase_def toLowerCase_unit_def js_def)
  then have "\<forall>k p u q. k \<in> set challenge_keywords \<and> js ''Hello world'' = p @ u @ q \<longrightarrow> toLowerCase u \<noteq> k"
    using includes_lower_iff by blast
  then have c: "\<not> isChallenge 200 (js ''Hello world'')"
    using challenge_detector [of 0 "js ''Hello world''"] by blast
  from a b c show ?thesis by blast
qed

section \<open>What \<open>parseRsc\<close> keeps\<close>

lemma lex_string_plain:
  "plain body \<Longrightarrow> lex_string (body @ 34 # post) = Some (body, Suc (length body))"
  by (induction body) (auto simp: plain_def)

lemma quoted_len_run:
  "34 \<notin> set s \<Longrightarrow> 92 \<notin> set s \<Longrightarrow> length s \<le> room \<Longrightarrow>
     quoted_len room (s @ 34 # rest) = Inr (Some (Suc (length s)))"
proof (induction s arbitrary: room)
  case Nil
  then show ?case by simp
next
  case (Cons c s)
  then have "quoted_len (room - 1) (s @ 34 # rest) = Inr (Some (Suc (length s)))" by simp
  with Cons.prems show ?case by simp
qed

lemma plain_run: "plain s \<Longrightarrow> 34 \<notin> set s \<and> 92 \<notin> set s"
  by (auto simp: plain_def list_all_iff)

lemma inside_split:
  "quotes_closed_from True cs \<Longrightarrow>
     \<exists>s rest. cs = s @ 34 # rest \<and> 34 \<notin> set s \<and> 92 \<notin> set s \<and> quotes_closed_from False rest"
proof (induction cs)
  case Nil
  then show ?case by simp
next
  case (Cons c cs)
  show ?case
  proof (cases "c = 34")
    case True
    with Cons.prems have "c # cs = [] @ 34 # cs \<and> quotes_closed_from False cs" by simp
    then show ?thesis by force
  next
    case False
    with Cons obtain s rest where "cs = s @ 34 # rest" "34 \<notin> set s" "92 \<notin> set s"
      "quotes_closed_from False rest" by auto
    with False Cons.prems have "c # cs = (c # s) @ 34 # rest \<and> 34 \<notin> set (c # s) \<and>
      92 \<notin> set (c # s) \<and> quotes_closed_from False rest" by auto
    then show ?thesis by blast
  qed
qed

lemma scan_quoted_literal:
  assumes "34 \<notin> set s" and "92 \<notin> set s" and "length s \<le> regexp_stack_room"
  shows "scan_quoted (34 # s @ 34 # rest) =
           (case scan_quoted rest of Inl e \<Rightarrow> Inl e | Inr ms \<Rightarrow> Inr ((34 # s @ [34]) # ms))"
proof -
  have "take (Suc (length s)) (s @ 34 # rest) = s @ [34]" by simp
  moreover have "drop (Suc (length s)) (s @ 34 # rest) = rest" by simp
  ultimately show ?thesis
    using quoted_len_run [OF assms, of rest] by (simp split: sum.splits)
qed

lemma scan_closed_prefix:
  "quotes_closed_from False pre \<Longrightarrow> length pre \<le> regexp_stack_room \<Longrightarrow>
   scan_quoted rest = Inr ms2 \<Longrightarrow> \<exists>ms1. scan_quoted (pre @ rest) = Inr (ms1 @ ms2)"
proof (induction "length pre" arbitrary: pre rule: less_induct)
  case less
  show ?case
  proof (cases pre)
    case Nil
    with less.prems show ?thesis by simp
  next
    case (Cons c cs)
    show ?thesis
    proof (cases "c = 34")
      case False
      with Cons less.prems have "quotes_closed_from False cs" "length cs \<le> regexp_stack_room"
        by auto
      with less.hyps [of cs] Cons less.prems(3)
      obtain ms1 where "scan_quoted (cs @ rest) = Inr (ms1 @ ms2)" by auto
      with Cons False show ?thesis by auto
    next
      case True
      with Cons less.prems have "quotes_closed_from True cs" by simp
      then obtain s tl where cs: "cs = s @ 34 # tl" and s: "34 \<notin> set s" "92 \<notin> set s"
        and tl: "quotes_closed_from False tl"
        using inside_split by blast
      have len: "length s \<le> regexp_stack_room" "length tl \<le> regexp_stack_room"
        using less.prems(2) Cons cs by auto
      have "length tl < length pre" using Cons cs by simp
      with less.hyps [of tl] tl len less.prems(3)
      obtain ms1 where m: "scan_quoted (tl @ rest) = Inr (ms1 @ ms2)" by auto
      have "scan_quoted (pre @ rest) = scan_quoted (34 # s @ 34 # (tl @ rest))"
        using Cons True cs by simp
      also have "\<dots> = Inr (((34 # s @ [34]) # ms1) @ ms2)"
        using scan_quoted_literal [OF s len(1), of "tl @ rest"] m by simp
      finally show ?thesis by blast
    qed
  qed
qed

lemma JSON_parse_literal:
  assumes "plain body"
  shows "JSON_parse (34 # body @ [34]) = Inr (JString body)"
proof -
  have "lex (34 # body @ [34]) = Some [TString body]"
    using lex_string_plain [OF assms, of "[]"] by (simp add: is_json_ws_def)
  then show ?thesis
    by (simp add: JSON_parse_def parse_step_def start_value_def)
qed

lemma decode_match_literal:
  assumes "plain body" and "length body > 20"
    and "\<not> startsWith body (js ''$'')" and "\<not> startsWith body (js ''@'')"
  shows "decode_match (34 # body @ [34]) = Inr [body]"
  using assms JSON_parse_literal [OF assms(1)] by (simp add: decode_match_def)

lemma fallback_finds:
  assumes "JSON_parse (pre @ 34 # body @ 34 # post) = Inl e"
    and "quotes_closed pre" and "plain body" and "length body > 20"
    and "\<not> startsWith body (js ''$'')" and "\<not> startsWith body (js ''@'')"
    and "length (pre @ 34 # body @ 34 # post) \<le> regexp_stack_room"
  shows "\<exists>before rest. process_payload (pre @ 34 # body @ 34 # post) = Inr (before @ body # rest)"
proof -
  let ?keep = "\<lambda>m. case decode_match m of Inl e \<Rightarrow> [] | Inr xs \<Rightarrow> xs"
  have "length post \<le> Suc regexp_stack_room" using assms(7) by simp
  then obtain mp where mp: "scan_quoted post = Inr mp" using scan_quoted_bounded by blast
  have "length body \<le> regexp_stack_room" using assms(7) by simp
  then have lit: "scan_quoted (34 # body @ 34 # post) = Inr ((34 # body @ [34]) # mp)"
    using scan_quoted_literal [of body post] plain_run [OF assms(3)] mp by simp
  have "length pre \<le> regexp_stack_room" using assms(7) by simp
  with assms(2) lit obtain ms1 where
    sc: "scan_quoted (pre @ 34 # body @ 34 # post) = Inr (ms1 @ (34 # body @ [34]) # mp)"
    using scan_closed_prefix [of pre "34 # body @ 34 # post"] by (auto simp: quotes_closed_def)
  have "try_block (pre @ 34 # body @ 34 # post) = Inl e"
    using assms(1) by (simp add: try_block_def)
  then have "process_payload (pre @ 34 # body @ 34 # post) = catch_block (pre @ 34 # body @ 34 # post)"
    by (simp add: process_payload_def)
  also have "\<dots> = Inr (concat (map ?keep ms1) @ body # concat (map ?keep mp))"
    using decode_match_literal [OF assms(3-6)]
    by (simp only: catch_block_def sc sum.case map_append list.map concat_append concat.simps
        append_Cons append_Nil)
  finally show ?thesis by blast
qed

lemma plain_string_rule:
  assumes "JSON_parse payload = Inr (JString s)"
  shows "process_payload payload =
           Inr (if length s > 20 \<and> \<not> startsWith s (js ''$'') \<and> \<not> startsWith s (js ''@'')
                then [s] else [])"
  using assms by (simp add: process_payload_def try_block_def)

text \<open>
  Claim C5, as stated, fails where it asks for a quoted string of at least 20 characters:
  the fallback scan, like the other two places, keeps a string only when it is longer
  than 20.  The payload below is no JSON, its quoted string has exactly 20 characters,
  and nothing is extracted.
\<close>

theorem fallback_twenty_counterexample:
  \<open>length (js ''exactly twenty chars'') = 20 \<and>
   JSON_parse (js ''{bad json "exactly twenty chars"}'') = Inl SyntaxError \<and>
   parseRsc (js ''3:{bad json "exactly twenty chars"}'') = Inr []\<close>
  by (simp add: json_eval rsc_eval)

text \<open>
  Claim C5, amended.  A payload that parses to a plain string is kept exactly when the
  string is longer than 20 characters and does not begin with \<open>$\<close> or \<open>@\<close>.  The input
  \<open>1:"hello world this is a long enough string"\<close> yields that string and the input
  \<open>2:["$","div",{"children":"short"}]\<close> yields the empty text.  When the payload is no
  JSON, a quoted string of ordinary characters in it that is longer than 20 and does not
  begin with \<open>$\<close> or \<open>@\<close> is among the strings that the fallback scan yields, wherever
  it stands behind quotes that pair up: not the first match only.  This is stated for
  payloads of up to 8388573 characters, where the scan does not run out of stack.
\<close>

theorem parseRsc_keeps_long_strings:
  \<open>(JSON_parse payload = Inr (JString s) \<longrightarrow>
      process_payload payload =
        Inr (if length s > 20 \<and> \<not> startsWith s (js ''$'') \<and> \<not> startsWith s (js ''@'')
             then [s] else [])) \<and>
   parseRsc (js ''1:"hello world this is a long enough string"'') =
     Inr (js ''hello world this is a long enough string'') \<and>
   parseRsc (js ''2:["$","div",{"children":"short"}]'') = Inr [] \<and>
   (JSON_parse (pre @ 34 # body @ 34 # post) = Inl e \<and> quotes_closed pre \<and> plain body \<and>
    length body > 20 \<and> \<not> startsWith body (js ''$'') \<and> \<not> startsWith body (js ''@'') \<and>
    length (pre @ 34 # body @ 34 # post) \<le> regexp_stack_room \<longrightarrow>
      (\<exists>before rest. process_payload (pre @ 34 # body @ 34 # post) = Inr (before @ body # rest)))\<close>
proof (intro conjI impI)
  assume "JSON_parse payload = Inr (JString s)"
  then show "process_payload payload =
      Inr (if length s > 20 \<and> \<not> startsWith s (js ''$'') \<and> \<not> startsWith s (js ''@'')
           then [s] else [])"
    by (rule plain_string_rule)
next
  show \<open>parseRsc (js ''1:"hello world this is a long enough string"'') =
      Inr (js ''hello world this is a long enough string'')\<close>
    by (simp add: json_eval rsc_eval)
next
  show \<open>parseRsc (js ''2:["$","div",{"children":"short"}]'') = Inr []\<close>
    by (simp add: json_eval rsc_eval)
next
  assume "JSON_parse (pre @ 34 # body @ 34 # post) = Inl e \<and> quotes_closed pre \<and> plain body \<and>
    length body > 20 \<and> \<not> startsWith body (js ''$'') \<and> \<not> startsWith body (js ''@'') \<and>
    length (pre @ 34 # body @ 34 # post) \<le> regexp_stack_room"
  then show "\<exists>before rest. process_payload (pre @ 34 # body @ 34 # post) = Inr (before @ body # rest)"
    using fallback_finds by blast
qed

theorem parseRsc_keeps_long_strings_witness:
  \<open>process_payload (js ''"a plain string of more than twenty"'') =
     Inr [js ''a plain string of more than twenty''] \<and>
   process_payload (js ''"$L12 reference, also more than twenty"'') = Inr [] \<and>
   (\<exists>before rest.
      process_payload (js ''{bad json "the first quoted string in it" and "the second quoted string"}'') =
        Inr (before @ js ''the second quoted string'' # rest))\<close>
proof -
  have p1: \<open>JSON_parse (js ''"a plain string of more than twenty"'') =
      Inr (JString (js ''a plain string of more than twenty''))\<close>
    by (simp add: json_eval)
  have a: \<open>process_payload (js ''"a plain string of more than twenty"'') =
      Inr [js ''a plain string of more than twenty'']\<close>
    using parseRsc_keeps_long_strings
      [of \<open>js ''"a plain string of more than twenty"''\<close> \<open>js ''a plain string of more than twenty''\<close>] p1
    by (simp add: js_def startsWith_def)
  have p2: \<open>JSON_parse (js ''"$L12 reference, also more than twenty"'') =
      Inr (JString (js ''$L12 reference, also more than twenty''))\<close>
    by (simp add: json_eval)
  have b: \<open>process_payload (js ''"$L12 reference, also more than twenty"'') = Inr []\<close>
    using parseRsc_keeps_long_strings
      [of \<open>js ''"$L12 reference, also more than twenty"''\<close> \<open>js ''$L12 reference, also more than twenty''\<close>] p2
    by (simp add: js_def startsWith_def)
  have h: \<open>JSON_parse (js ''{bad json "the first quoted string in it" and '' @ 34 #
        js ''the second quoted string'' @ 34 # js ''}'') = Inl SyntaxError \<and>
      quotes_closed (js ''{bad json "the first quoted string in it" and '') \<and>
      plain (js ''the second quoted string'') \<and>
      length (js ''the second quoted string'') > 20 \<and>
      \<not> startsWith (js ''the second quoted string'') (js ''$'') \<and>
      \<not> startsWith (js ''the second quoted string'') (js ''@'') \<and>
      length (js ''{bad json "the first quoted string in it" and '' @ 34 #
        js ''the second quoted string'' @ 34 # js ''}'') \<le> regexp_stack_room\<close>
    by (simp add: json_eval plain_def startsWith_def quotes_closed_def regexp_stack_room_def)
  have \<open>\<exists>before rest. process_payload (js ''{bad json "the first quoted string in it" and '' @ 34 #
        js ''the second quoted string'' @ 34 # js ''}'') =
      Inr (before @ js ''the second quoted string'' # rest)\<close>
    using parseRsc_keeps_long_strings
      [of "[]" "[]" \<open>js ''{bad json "the first quoted string in it" and ''\<close>
          \<open>js ''the second quoted string''\<close> \<open>js ''}''\<close> SyntaxError] h
    by blast
  then have c: \<open>\<exists>before rest.
      process_payload (js ''{bad json "the first quoted string in it" and "the second quoted string"}'') =
        Inr (before @ js ''the second quoted string'' # rest)\<close>
    by (simp add: js_def)
  from a b c show ?thesis by blast
qed

section \<open>Arrays: top-level items only\<close>

lemma array_items_comprehension:
  "concat (map array_item items) =
     [s. JString s \<leftarrow> items, length s > 20, \<not> startsWith s (js ''$''),
         \<not> startsWith s (js ''@''), \<not> startsWith s (js ''['')]"
  by (induction items) (auto simp: array_item_def split: json.splits)

text \<open>
  Claim C9.  When the payload of a line parses as a JSON array, the strings extracted are
  the top-level items of the array that are strings longer than 20 not beginning with
  \<open>$\<close>, \<open>@\<close> or \<open>[\<close>, in their order: nothing nested in a sub-array or in an object is
  looked at.  And whenever the parse succeeds, the line yields what the \<open>try\<close> block
  yields: the fallback scan of the \<open>catch\<close> block is not applied.
\<close>

theorem array_top_level_only:
  "(JSON_parse payload = Inr (JArray items) \<longrightarrow>
      process_payload payload =
        Inr [s. JString s \<leftarrow> items, length s > 20, \<not> startsWith s (js ''$''),
                \<not> startsWith s (js ''@''), \<not> startsWith s (js ''['')]) \<and>
   (JSON_parse payload = Inr v \<longrightarrow>
      process_payload payload = try_block payload \<and>
      (\<forall>other. JSON_parse other = Inr v \<longrightarrow> process_payload other = process_payload payload))"
proof (intro conjI impI allI)
  assume "JSON_parse payload = Inr (JArray items)"
  then have "process_payload payload = Inr (concat (map array_item items))"
    by (simp add: process_payload_def try_block_def)
  then show "process_payload payload =
      Inr [s. JString s \<leftarrow> items, length s > 20, \<not> startsWith s (js ''$''),
              \<not> startsWith s (js ''@''), \<not> startsWith s (js ''['')]"
    by (simp only: array_items_comprehension)
next
  assume "JSON_parse payload = Inr v"
  then show "process_payload payload = try_block payload"
    by (simp add: process_payload_def try_block_def)
next
  fix other
  assume "JSON_parse payload = Inr v" and "JSON_parse other = Inr v"
  then show "process_payload other = process_payload payload"
    by (simp add: process_payload_def try_block_def)
qed

theorem array_top_level_only_witness:
  \<open>process_payload (js ''[["this nested string is long enough"],{"k":"this object value is long enough"},"this top-level string is long enough"]'') =
     Inr [js ''this top-level string is long enough''] \<and>
   catch_block (js ''[["this nested string is long enough"],{"k":"this object value is long enough"},"this top-level string is long enough"]'') =
     Inr [js ''this nested string is long enough'', js ''this object value is long enough'',
          js ''this top-level string is long enough'']\<close>
proof -
  have p: \<open>JSON_parse (js ''[["this nested string is long enough"],{"k":"this object value is long enough"},"this top-level string is long enough"]'') =
      Inr (JArray [JArray [JString (js ''this nested string is long enough'')],
                   JObject [(js ''k'', JString (js ''this object value is long enough''))],
                   JString (js ''this top-level string is long enough'')])\<close>
    by (simp add: json_eval)
  have a: \<open>process_payload (js ''[["this nested string is long enough"],{"k":"this object value is long enough"},"this top-level string is long enough"]'') =
      Inr [js ''this top-level string is long enough'']\<close>
    using array_top_level_only
      [of \<open>js ''[["this nested string is long enough"],{"k":"this object value is long enough"},"this top-level string is long enough"]''\<close>
          \<open>[JArray [JString (js ''this nested string is long enough'')],
            JObject [(js ''k'', JString (js ''this object value is long enough''))],
            JString (js ''this top-level string is long enough'')]\<close>] p
    by (simp add: js_def startsWith_def)
  have b: \<open>catch_block (js ''[["this nested string is long enough"],{"k":"this object value is long enough"},"this top-level string is long enough"]'') =
      Inr [js ''this nested string is long enough'', js ''this object value is long enough'',
           js ''this top-level string is long enough'']\<close>
    by (simp add: json_eval rsc_eval)
  from a b show ?thesis by blast
qed

section \<open>Redirects\<close>

lemma requests_append: "requests (xs @ ys) = requests xs @ requests ys"
  by (induction xs rule: requests.induct) simp_all

lemma budgets_append: "budgets (xs @ ys) = budgets xs @ budgets ys"
  by (induction xs rule: budgets.induct) simp_all

lemma chain_resolves:
  "redirect_chain env (requests log) url k = Some res \<Longrightarrow> int k \<le> m \<Longrightarrow>
     fst (fetchContent env log url m) = Resolved (result_of res) \<and>
     budgets (snd (fetchContent env log url m)) = budgets log @ countdown m (Suc k)"
proof (induction k arbitrary: log url m)
  case 0
  then show ?case
    by (subst (1 2) fetchContent.simps)
       (auto simp: fetchable_def budgets_append split: if_splits reply.splits sum.splits)
next
  case (Suc k)
  from Suc.prems obtain r0 u where f: "fetchable env (requests log) url"
    and n: "net env (requests log) url = Response r0" and red: "is_redirect r0"
    and u: "url_resolve env (case res_location r0 of None \<Rightarrow> [] | Some l \<Rightarrow> l) url = Inr u"
    and c: "redirect_chain env (requests log @ [url]) u k = Some res"
    by (auto split: if_splits reply.splits sum.splits)
  have step: "fetchContent env log url m = fetchContent env (log @ [Call url m, Get url]) u (m - 1)"
    using f n red u Suc.prems(2)
    by (subst fetchContent.simps) (auto simp: fetchable_def)
  have "redirect_chain env (requests (log @ [Call url m, Get url])) u k = Some res"
    using c by (simp add: requests_append)
  moreover have "int k \<le> m - 1" using Suc.prems(2) by simp
  ultimately have "fst (fetchContent env (log @ [Call url m, Get url]) u (m - 1)) = Resolved (result_of res) \<and>
     budgets (snd (fetchContent env (log @ [Call url m, Get url]) u (m - 1))) =
       budgets (log @ [Call url m, Get url]) @ countdown (m - 1) (Suc k)"
    by (rule Suc.IH)
  then show ?case
    by (simp add: step budgets_append)
qed

lemma hops_reject:
  "redirect_hops env (requests log) url k \<Longrightarrow> m < int k \<Longrightarrow>
     fst (fetchContent env log url m) = Rejected (Error (js ''Too many redirects'')) \<and>
     budgets (snd (fetchContent env log url m)) =
       budgets log @ countdown m (if m < 0 then 1 else nat m + 2)"
proof (induction k arbitrary: log url m)
  case 0
  then show ?case
    by (subst (1 2) fetchContent.simps) (simp add: budgets_append)
next
  case (Suc k)
  show ?case
  proof (cases "m < 0")
    case True
    then show ?thesis
      by (subst (1 2) fetchContent.simps) (simp add: budgets_append)
  next
    case False
    from Suc.prems obtain r0 u where f: "fetchable env (requests log) url"
      and n: "net env (requests log) url = Response r0" and red: "is_redirect r0"
      and u: "url_resolve env (case res_location r0 of None \<Rightarrow> [] | Some l \<Rightarrow> l) url = Inr u"
      and c: "redirect_hops env (requests log @ [url]) u k"
      by (auto split: if_splits reply.splits sum.splits)
    have step: "fetchContent env log url m = fetchContent env (log @ [Call url m, Get url]) u (m - 1)"
      using f n red u False
      by (subst fetchContent.simps) (auto simp: fetchable_def)
    have "redirect_hops env (requests (log @ [Call url m, Get url])) u k"
      using c by (simp add: requests_append)
    moreover have "m - 1 < int k" using Suc.prems(2) by simp
    ultimately have ih: "fst (fetchContent env (log @ [Call url m, Get url]) u (m - 1)) =
        Rejected (Error (js ''Too many redirects'')) \<and>
       budgets (snd (fetchContent env (log @ [Call url m, Get url]) u (m - 1))) =
         budgets (log @ [Call url m, Get url]) @ countdown (m - 1) (if m - 1 < 0 then 1 else nat (m - 1) + 2)"
      by (rule Suc.IH)
    have "nat m + 2 = Suc (if m - 1 < 0 then 1 else nat (m - 1) + 2)"
      using False by auto
    with ih False show ?thesis
      by (simp add: step budgets_append)
  qed
qed

text \<open>
  Claim C2.  When a redirect chain of length \<open>k\<close> starts at the URL and \<open>k\<close> is at most
  \<open>maxRedirects\<close>, \<open>fetchContent\<close> resolves with the terminal response of the chain, after
  \<open>k + 1\<close> calls whose budgets go down by one from \<open>maxRedirects\<close>.  When the chain has
  more than \<open>maxRedirects\<close> hops, the promise is rejected with \<open>Too many redirects\<close>: the
  budgets go down by one from \<open>maxRedirects\<close> to zero, where one more request is made, and
  the call with budget \<open>-1\<close> fails without a request.  \<open>fetchContent\<close> is a total
  function, so no run loops.
\<close>

theorem redirect_bound:
  "(redirect_chain env (requests log) url k = Some res \<and> int k \<le> maxRedirects \<longrightarrow>
      fst (fetchContent env log url maxRedirects) = Resolved (result_of res) \<and>
      budgets (snd (fetchContent env log url maxRedirects)) =
        budgets log @ countdown maxRedirects (Suc k)) \<and>
   (redirect_hops env (requests log) url k \<and> maxRedirects < int k \<longrightarrow>
      fst (fetchContent env log url maxRedirects) = Rejected (Error (js ''Too many redirects'')) \<and>
      budgets (snd (fetchContent env log url maxRedirects)) =
        budgets log @ countdown maxRedirects (if maxRedirects < 0 then 1 else nat maxRedirects + 2))"
  using chain_resolves hops_reject by blast

theorem redirect_bound_witness:
  "fst (fetchContent (example_env redirecting_site False) [] (js ''http://a.example/'') 5) =
     Resolved \<lparr>data = js ''done'', contentType = js ''text/plain'', statusCode = 200\<rparr> \<and>
   budgets (snd (fetchContent (example_env redirecting_site False) [] (js ''http://a.example/'') 5)) =
     [5, 4, 3] \<and>
   fst (fetchContent (example_env redirecting_site False) [] (js ''http://a.example/'') 1) =
     Rejected (Error (js ''Too many redirects'')) \<and>
   budgets (snd (fetchContent (example_env redirecting_site False) [] (js ''http://a.example/'') 1)) =
     [1, 0, - 1]"
proof -
  let ?E = "example_env redirecting_site False"
  let ?a = "js ''http://a.example/''"
  have c: "redirect_chain ?E (requests []) ?a 2 =
      Some \<lparr>res_statusCode = 200, res_location = None,
            res_content_type = Some (js ''text/plain''), res_body = js ''done''\<rparr>"
    by (simp add: numeral_2_eq_2 env_eval redirecting_site_def)
  have h: "redirect_hops ?E (requests []) ?a 2"
    by (simp add: numeral_2_eq_2 env_eval redirecting_site_def)
  have "fst (fetchContent ?E [] ?a 5) =
      Resolved (result_of \<lparr>res_statusCode = 200, res_location = None,
            res_content_type = Some (js ''text/plain''), res_body = js ''done''\<rparr>) \<and>
    budgets (snd (fetchContent ?E [] ?a 5)) = budgets [] @ countdown 5 (Suc 2)"
    using redirect_bound [of ?E "[]" ?a 2 _ 5] c by simp
  moreover have "fst (fetchContent ?E [] ?a 1) = Rejected (Error (js ''Too many redirects'')) \<and>
    budgets (snd (fetchContent ?E [] ?a 1)) = budgets [] @ countdown 1 (if (1::int) < 0 then 1 else nat 1 + 2)"
    using redirect_bound [of ?E "[]" ?a 2 _ 1] h by simp
  ultimately show ?thesis
    by (simp add: result_of_def numeral_3_eq_3 numeral_2_eq_2 js_simps)
qed

section \<open>Cancellation\<close>

text \<open>
  Claim C8, as stated, fails: a call with an aborted signal does not always fail with
  \<open>Request aborted\<close>.  The test of \<open>maxRedirects\<close> and the parsing of the URL come first:
  with a budget below zero the call fails with \<open>Too many redirects\<close>, and with a text
  that is no URL it fails with the exception of the URL constructor.
\<close>

theorem aborted_other_failure_counterexample:
  "aborted (example_env redirecting_site True) [] \<and>
   fetchContent (example_env redirecting_site True) [] (js ''https://example.com/'') (- 1) =
     (Rejected (Error (js ''Too many redirects'')), [Call (js ''https://example.com/'') (- 1)]) \<and>
   fetchContent (example_env redirecting_site True) [] (js ''example.com'') 5 =
     (Rejected (Error (js ''Invalid URL'')), [Call (js ''example.com'') 5])"
  by (simp add: fetchContent.simps env_eval)

text \<open>
  Claim C8, amended.  When the signal is already aborted, \<open>maxRedirects\<close> is not negative
  and the URL parses to \<open>http:\<close> or \<open>https:\<close>, the call fails with \<open>Request aborted\<close>:
  the request is handed to the client and destroyed at once, and the result does not
  depend on any answer of the network.
\<close>

theorem aborted_call_rejects:
  "aborted env (requests log) \<and> 0 \<le> maxRedirects \<and>
   (url_protocol env url = Inr (js ''https:'') \<or> url_protocol env url = Inr (js ''http:'')) \<longrightarrow>
     fetchContent env log url maxRedirects =
       (Rejected (Error (js ''Request aborted'')), log @ [Call url maxRedirects, Get url, Destroy]) \<and>
     (\<forall>answers. fetchContent (env\<lparr>net := answers\<rparr>) log url maxRedirects =
        fetchContent env log url maxRedirects)"
  by (auto simp: fetchContent.simps [of _ log url maxRedirects])

theorem aborted_call_rejects_witness:
  "fetchContent (example_env redirecting_site True) [] (js ''https://example.com/'') 5 =
     (Rejected (Error (js ''Request aborted'')),
      [Call (js ''https://example.com/'') 5, Get (js ''https://example.com/''), Destroy])"
proof -
  have "aborted (example_env redirecting_site True) (requests []) \<and> (0::int) \<le> 5 \<and>
    (url_protocol (example_env redirecting_site True) (js ''https://example.com/'') = Inr (js ''https:'') \<or>
     url_protocol (example_env redirecting_site True) (js ''https://example.com/'') = Inr (js ''http:''))"
    by (simp add: env_eval)
  then show ?thesis
    using aborted_call_rejects [of "example_env redirecting_site True" "[]" 5 "js ''https://example.com/''"]
    by simp
qed

section \<open>The trace of a run\<close>

lemma fetch_unfold_outcome:
  "(\<exists>e. fetchContent env log url m = (Rejected e, log @ [Call url m])) \<or>
   (fetchContent env log url m =
      (Rejected (Error (js ''Request aborted'')), log @ [Call url m, Get url, Destroy])) \<or>
   (\<exists>p. fetchContent env log url m = (p, log @ [Call url m, Get url]) \<and>
        (\<forall>e. p = Uncaught e \<longrightarrow> (\<exists>l. url_resolve env l url = Inl e))) \<or>
   (0 \<le> m \<and> (\<exists>u. fetchContent env log url m =
       fetchContent env (log @ [Call url m, Get url]) u (m - 1)))"
proof (cases "m < 0")
  case True
  then have "fetchContent env log url m =
      (Rejected (Error (js ''Too many redirects'')), log @ [Call url m])"
    by (subst fetchContent.simps) simp
  then show ?thesis by blast
next
  case m: False
  show ?thesis
  proof (cases "url_protocol env url")
    case (Inl e)
    with m have "fetchContent env log url m = (Rejected e, log @ [Call url m])"
      by (subst fetchContent.simps) simp
    then show ?thesis by blast
  next
    case p: (Inr protocol)
    show ?thesis
    proof (cases "protocol \<noteq> js ''https:'' \<and> protocol \<noteq> js ''http:''")
      case True
      with m p have "fetchContent env log url m =
          (Rejected (invalid_protocol protocol), log @ [Call url m])"
        by (subst fetchContent.simps) simp
      then show ?thesis by blast
    next
      case ok: False
      show ?thesis
      proof (cases "aborted env (requests log)")
        case True
        with m p ok have "fetchContent env log url m =
            (Rejected (Error (js ''Request aborted'')), log @ [Call url m, Get url, Destroy])"
          by (subst fetchContent.simps) auto
        then show ?thesis by blast
      next
        case live: False
        show ?thesis
        proof (cases "net env (requests log) url")
          case (ErrorEvent e)
          with m p ok live have "fetchContent env log url m =
              (Rejected e, log @ [Call url m, Get url])"
            by (subst fetchContent.simps) auto
          then show ?thesis by simp
        next
          case r: (Response res)
          show ?thesis
          proof (cases "is_redirect res")
            case False
            with m p ok live r have "fetchContent env log url m =
                (Resolved (result_of res), log @ [Call url m, Get url])"
              by (subst fetchContent.simps) auto
            then show ?thesis by simp
          next
            case red: True
            show ?thesis
            proof (cases "url_resolve env (case res_location res of None \<Rightarrow> [] | Some l \<Rightarrow> l) url")
              case (Inl e)
              with m p ok live r red have "fetchContent env log url m =
                  (Uncaught e, log @ [Call url m, Get url])"
                by (subst fetchContent.simps) auto
              with Inl show ?thesis by auto
            next
              case (Inr u)
              with m p ok live r red have "fetchContent env log url m =
                  fetchContent env (log @ [Call url m, Get url]) u (m - 1)"
                by (subst fetchContent.simps) auto
              with m show ?thesis by auto
            qed
          qed
        qed
      qed
    qed
  qed
qed

lemma fetch_unfold:
  "(\<exists>p. fetchContent env log url m = (p, log @ [Call url m])) \<or>
   (\<exists>p. fetchContent env log url m = (p, log @ [Call url m, Get url, Destroy])) \<or>
   (\<exists>p. fetchContent env log url m = (p, log @ [Call url m, Get url])) \<or>
   (0 \<le> m \<and> (\<exists>u. fetchContent env log url m =
       fetchContent env (log @ [Call url m, Get url]) u (m - 1)))"
  using fetch_unfold_outcome [of env log url m] by blast

lemma fetch_trace_extends:
  "\<exists>rest. snd (fetchContent env log url m) = log @ Call url m # rest"
proof (induction "nat (m + 1)" arbitrary: log url m)
  case 0
  then have "m < 0" by simp
  then show ?case by (subst fetchContent.simps) simp
next
  case (Suc n)
  from fetch_unfold [of env log url m] show ?case
  proof (elim disjE exE conjE)
    fix u
    assume m: "0 \<le> m"
      and eq: "fetchContent env log url m = fetchContent env (log @ [Call url m, Get url]) u (m - 1)"
    from Suc(2) have "n = nat (m - 1 + 1)" by simp
    then obtain rest where
      "snd (fetchContent env (log @ [Call url m, Get url]) u (m - 1)) =
         (log @ [Call url m, Get url]) @ Call u (m - 1) # rest"
      using Suc(1) by blast
    then show ?thesis by (simp add: eq)
  qed simp_all
qed

lemma fetch_trace_get:
  assumes "url_protocol env url = Inr (js ''https:'') \<or> url_protocol env url = Inr (js ''http:'')"
    and "0 \<le> m"
  shows "\<exists>rest. snd (fetchContent env log url m) = log @ Call url m # Get url # rest"
proof -
  have "\<exists>rest. snd (fetchContent env (log @ [Call url m, Get url]) u (m - 1)) =
      log @ Call url m # Get url # rest" for u
    using fetch_trace_extends [of env "log @ [Call url m, Get url]" u "m - 1"] by auto
  then show ?thesis
    using assms
    by (subst fetchContent.simps) (auto split: sum.splits reply.splits)
qed

lemma fetch_events:
  "list_all is_fetch_event log \<Longrightarrow> list_all is_fetch_event (snd (fetchContent env log url m))"
proof (induction "nat (m + 1)" arbitrary: log url m)
  case 0
  then have "m < 0" by simp
  with 0 show ?case by (subst fetchContent.simps) simp
next
  case (Suc n)
  from fetch_unfold [of env log url m] show ?case
  proof (elim disjE exE conjE)
    fix u
    assume m: "0 \<le> m"
      and eq: "fetchContent env log url m = fetchContent env (log @ [Call url m, Get url]) u (m - 1)"
    from Suc(2) have "n = nat (m - 1 + 1)" by simp
    moreover have "list_all is_fetch_event (log @ [Call url m, Get url])"
      using Suc(3) by simp
    ultimately have "list_all is_fetch_event
        (snd (fetchContent env (log @ [Call url m, Get url]) u (m - 1)))"
      by (rule Suc(1))
    then show ?thesis by (simp add: eq)
  qed (use Suc(3) in simp_all)
qed

lemma proxy_stage_trace:
  "snd (proxy_stage env log url) = snd (fetchContent env log (jinaUrl url) 5)"
  by (simp add: proxy_stage_def split: prod.splits promise.splits)

lemma not_fetch_event: "list_all is_fetch_event log \<Longrightarrow> NewJSDOM \<notin> set log \<and> ReadabilityParse \<notin> set log"
  by (auto simp: list_all_iff)

text \<open>
  Claim C1, as stated, fails in its last part: the keyword test on the body of the proxy
  is made only for a proxy status from 200 to 299 (line 210).  Here the local fetch
  returns 503 and the proxy returns the challenge page with its status 503: the body
  holds a keyword, the result is error-flagged, and its text names the status of the
  proxy and says nothing of a block.
\<close>

theorem proxy_status_counterexample:
  \<open>fst (fetchContent (example_env blocked_twice_site False) [] (js ''https://example.com/'') 5) =
     Resolved \<lparr>data = js ''Service Unavailable'', contentType = js ''text/html'', statusCode = 503\<rparr> \<and>
   fst (fetchContent (example_env blocked_twice_site False)
          [Call (js ''https://example.com/'') 5, Get (js ''https://example.com/'')]
          (jinaUrl (js ''https://example.com/'')) 5) =
     Resolved \<lparr>data = js ''Just a moment...'', contentType = js ''text/html'', statusCode = 503\<rparr> \<and>
   jina_blocked (js ''Just a moment...'') \<and>
   fst (execute (example_env blocked_twice_site False) (js ''https://example.com/'')) =
     Result \<lparr>content_text = js ''Failed to fetch content via local parser and Jina Reader (Status: 503).\<newline>Please use the "agent-browser" tool.'',
             isError = True\<rparr> \<and>
   \<not> js_includes (js ''Failed to fetch content via local parser and Jina Reader (Status: 503).\<newline>Please use the "agent-browser" tool.'')
        (js ''blocked'')\<close>
proof -
  have l: "fetchContent (example_env blocked_twice_site False) [] (js ''https://example.com/'') 5 =
     (Resolved \<lparr>data = js ''Service Unavailable'', contentType = js ''text/html'', statusCode = 503\<rparr>,
      [Call (js ''https://example.com/'') 5, Get (js ''https://example.com/'')])"
    by (simp add: fetchContent.simps site_eval blocked_twice_site_def)
  have p: "fetchContent (example_env blocked_twice_site False)
       [Call (js ''https://example.com/'') 5, Get (js ''https://example.com/'')]
       (jinaUrl (js ''https://example.com/'')) 5 =
     (Resolved \<lparr>data = js ''Just a moment...'', contentType = js ''text/html'', statusCode = 503\<rparr>,
      [Call (js ''https://example.com/'') 5, Get (js ''https://example.com/''),
       Call (js ''https://r.jina.ai/https://example.com/'') 5,
       Get (js ''https://r.jina.ai/https://example.com/'')])"
    by (simp add: fetchContent.simps site_eval blocked_twice_site_def jinaUrl_def)
  have b: "jina_blocked (js ''Just a moment...'')"
    by (simp add: jina_blocked_def lower_eval)
  have d: "digits_of 503 = js ''503''"
    by (simp add: digits_of.simps js_def)
  have e: \<open>fst (execute (example_env blocked_twice_site False) (js ''https://example.com/'')) =
     Result \<lparr>content_text = js ''Failed to fetch content via local parser and Jina Reader (Status: 503).\<newline>Please use the "agent-browser" tool.'',
             isError = True\<rparr>\<close>
    by (simp add: execute_def l local_stage_def isChallenge_def p proxy_stage_def d js_append)
  have n: \<open>\<not> js_includes (js ''Failed to fetch content via local parser and Jina Reader (Status: 503).\<newline>Please use the "agent-browser" tool.'')
        (js ''blocked'')\<close>
    by (simp add: js_def)
  from l p b e n show ?thesis by simp
qed

text \<open>
  Claim C1, amended.  When the local fetch resolves with status 503, the next call of
  \<open>fetchContent\<close> is for the proxy URL (and so is the next request, the proxy URL being
  an \<open>https\<close> URL); no DOM is built and Readability is not called anywhere in the run.
  When the proxy answers with a body that holds a challenge keyword, the result is
  error-flagged: for a proxy status from 200 to 299 its text says that the Jina Reader
  was blocked as well, and for any other status it names that status.
\<close>

theorem blocked_locally_goes_to_proxy:
  \<open>fetchContent env [] url 5 = (Resolved r, log) \<and> statusCode r = 503 \<longrightarrow>
     (\<exists>rest. snd (execute env url) = log @ Call (jinaUrl url) 5 # rest) \<and>
     (url_protocol env (jinaUrl url) = Inr (js ''https:'') \<longrightarrow>
        (\<exists>rest. snd (execute env url) = log @ Call (jinaUrl url) 5 # Get (jinaUrl url) # rest)) \<and>
     NewJSDOM \<notin> set (snd (execute env url)) \<and>
     ReadabilityParse \<notin> set (snd (execute env url)) \<and>
     (\<forall>jr log'. fetchContent env log (jinaUrl url) 5 = (Resolved jr, log') \<and> jina_blocked (data jr) \<longrightarrow>
        (\<exists>t. fst (execute env url) = Result \<lparr>content_text = t, isError = True\<rparr>) \<and>
        (statusCode jr \<ge> 200 \<and> statusCode jr < 300 \<longrightarrow>
           fst (execute env url) =
             Result \<lparr>content_text = js ''Unable to fetch content due to access restrictions (Jina Reader also blocked).\<newline>Please use the "agent-browser" tool to access this page.'',
                     isError = True\<rparr>) \<and>
        (\<not> (statusCode jr \<ge> 200 \<and> statusCode jr < 300) \<longrightarrow>
           fst (execute env url) =
             Result \<lparr>content_text =
                       js ''Failed to fetch content via local parser and Jina Reader (Status: '' @
                       digits_of (statusCode jr) @
                       js '').\<newline>Please use the "agent-browser" tool.'',
                     isError = True\<rparr>))\<close>
proof (intro impI)
  assume a: "fetchContent env [] url 5 = (Resolved r, log) \<and> statusCode r = 503"
  then have ex: "execute env url = proxy_stage env log url"
    by (simp add: execute_def local_stage_def isChallenge_def)
  have tr: "snd (execute env url) = snd (fetchContent env log (jinaUrl url) 5)"
    by (simp add: ex proxy_stage_trace)
  have "list_all is_fetch_event (snd (fetchContent env [] url 5))"
    by (rule fetch_events) simp
  then have "list_all is_fetch_event log" using a by simp
  then have "list_all is_fetch_event (snd (execute env url))"
    unfolding tr by (rule fetch_events)
  then have ev: "NewJSDOM \<notin> set (snd (execute env url)) \<and> ReadabilityParse \<notin> set (snd (execute env url))"
    by (rule not_fetch_event)
  have c1: "\<exists>rest. snd (execute env url) = log @ Call (jinaUrl url) 5 # rest"
    unfolding tr by (rule fetch_trace_extends)
  have c2: "\<exists>rest. snd (execute env url) = log @ Call (jinaUrl url) 5 # Get (jinaUrl url) # rest"
    if "url_protocol env (jinaUrl url) = Inr (js ''https:'')"
    unfolding tr using that by (intro fetch_trace_get) simp_all
  have c3: \<open>(\<exists>t. fst (execute env url) = Result \<lparr>content_text = t, isError = True\<rparr>) \<and>
        (statusCode jr \<ge> 200 \<and> statusCode jr < 300 \<longrightarrow>
           fst (execute env url) =
             Result \<lparr>content_text = js ''Unable to fetch content due to access restrictions (Jina Reader also blocked).\<newline>Please use the "agent-browser" tool to access this page.'',
                     isError = True\<rparr>) \<and>
        (\<not> (statusCode jr \<ge> 200 \<and> statusCode jr < 300) \<longrightarrow>
           fst (execute env url) =
             Result \<lparr>content_text =
                       js ''Failed to fetch content via local parser and Jina Reader (Status: '' @
                       digits_of (statusCode jr) @
                       js '').\<newline>Please use the "agent-browser" tool.'',
                     isError = True\<rparr>)\<close>
    if "fetchContent env log (jinaUrl url) 5 = (Resolved jr, log') \<and> jina_blocked (data jr)" for jr log'
    using that by (simp add: ex proxy_stage_def)
  from c1 c2 c3 ev
  show \<open>(\<exists>rest. snd (execute env url) = log @ Call (jinaUrl url) 5 # rest) \<and>
     (url_protocol env (jinaUrl url) = Inr (js ''https:'') \<longrightarrow>
        (\<exists>rest. snd (execute env url) = log @ Call (jinaUrl url) 5 # Get (jinaUrl url) # rest)) \<and>
     NewJSDOM \<notin> set (snd (execute env url)) \<and>
     ReadabilityParse \<notin> set (snd (execute env url)) \<and>
     (\<forall>jr log'. fetchContent env log (jinaUrl url) 5 = (Resolved jr, log') \<and> jina_blocked (data jr) \<longrightarrow>
        (\<exists>t. fst (execute env url) = Result \<lparr>content_text = t, isError = True\<rparr>) \<and>
        (statusCode jr \<ge> 200 \<and> statusCode jr < 300 \<longrightarrow>
           fst (execute env url) =
             Result \<lparr>content_text = js ''Unable to fetch content due to access restrictions (Jina Reader also blocked).\<newline>Please use the "agent-browser" tool to access this page.'',
                     isError = True\<rparr>) \<and>
        (\<not> (statusCode jr \<ge> 200 \<and> statusCode jr < 300) \<longrightarrow>
           fst (execute env url) =
             Result \<lparr>content_text =
                       js ''Failed to fetch content via local parser and Jina Reader (Status: '' @
                       digits_of (statusCode jr) @
                       js '').\<newline>Please use the "agent-browser" tool.'',
                     isError = True\<rparr>))\<close>
    by blast
qed

lemma blocked_site_local:
  "fetchContent (example_env blocked_site False) [] (js ''https://example.com/'') 5 =
     (Resolved \<lparr>data = js ''Service Unavailable'', contentType = js ''text/html'', statusCode = 503\<rparr>,
      [Call (js ''https://example.com/'') 5, Get (js ''https://example.com/'')])"
  by (simp add: fetchContent.simps site_eval blocked_site_def)

lemma blocked_site_proxy:
  "fetchContent (example_env blocked_site False)
       [Call (js ''https://example.com/'') 5, Get (js ''https://example.com/'')]
       (jinaUrl (js ''https://example.com/'')) 5 =
     (Resolved \<lparr>data = js ''Just a moment...'', contentType = js ''text/plain'', statusCode = 200\<rparr>,
      [Call (js ''https://example.com/'') 5, Get (js ''https://example.com/''),
       Call (js ''https://r.jina.ai/https://example.com/'') 5,
       Get (js ''https://r.jina.ai/https://example.com/'')])"
  by (simp add: fetchContent.simps site_eval blocked_site_def jinaUrl_def)

lemma just_a_moment_blocked: "jina_blocked (js ''Just a moment...'')"
  by (simp add: jina_blocked_def lower_eval)

theorem blocked_locally_goes_to_proxy_witness:
  \<open>fst (execute (example_env blocked_site False) (js ''https://example.com/'')) =
     Result \<lparr>content_text = js ''Unable to fetch content due to access restrictions (Jina Reader also blocked).\<newline>Please use the "agent-browser" tool to access this page.'',
             isError = True\<rparr> \<and>
   (\<exists>rest. snd (execute (example_env blocked_site False) (js ''https://example.com/'')) =
      [Call (js ''https://example.com/'') 5, Get (js ''https://example.com/'')] @
      Call (jinaUrl (js ''https://example.com/'')) 5 # rest) \<and>
   ReadabilityParse \<notin> set (snd (execute (example_env blocked_site False) (js ''https://example.com/'')))\<close>
proof -
  have "fetchContent (example_env blocked_site False) [] (js ''https://example.com/'') 5 =
      (Resolved \<lparr>data = js ''Service Unavailable'', contentType = js ''text/html'', statusCode = 503\<rparr>,
       [Call (js ''https://example.com/'') 5, Get (js ''https://example.com/'')]) \<and>
    statusCode \<lparr>data = js ''Service Unavailable'', contentType = js ''text/html'', statusCode = 503\<rparr> = 503"
    using blocked_site_local by simp
  from blocked_locally_goes_to_proxy [rule_format, OF this]
  show ?thesis
    using blocked_site_proxy just_a_moment_blocked by fastforce
qed

section \<open>The body of the proxy\<close>

lemma jina_blocked_empty: "\<not> jina_blocked []"
  by (simp add: jina_blocked_def toLowerCase_def js_def)

text \<open>
  Claim C10.  On the fallback path (the local response was handed on to the proxy), a
  proxy response with a status from 200 to 299 whose body holds no challenge keyword is
  returned as it is, not error-flagged, and no length is tested: an empty body gives a
  result that is not error-flagged and whose text is the empty string.
\<close>

theorem proxy_body_verbatim:
  "fetchContent env [] url 5 = (Resolved r, log) \<and>
   local_stage env log url r = (Continue, log') \<and>
   fetchContent env log' (jinaUrl url) 5 = (Resolved jr, log'') \<and>
   statusCode jr \<ge> 200 \<and> statusCode jr < 300 \<longrightarrow>
     (\<not> jina_blocked (data jr) \<longrightarrow>
        execute env url = (Result \<lparr>content_text = data jr, isError = False\<rparr>, log'')) \<and>
     (data jr = [] \<longrightarrow>
        execute env url = (Result \<lparr>content_text = [], isError = False\<rparr>, log''))"
  using jina_blocked_empty
  by (auto simp: execute_def proxy_stage_def success_def)

lemma missing_site_local:
  "fetchContent (example_env missing_site False) [] (js ''https://example.com/missing'') 5 =
     (Resolved \<lparr>data = js ''Not Found'', contentType = js ''text/html'', statusCode = 404\<rparr>,
      [Call (js ''https://example.com/missing'') 5, Get (js ''https://example.com/missing'')])"
  by (simp add: fetchContent.simps site_eval missing_site_def)

lemma missing_site_proxy:
  "fetchContent (example_env missing_site False)
       [Call (js ''https://example.com/missing'') 5, Get (js ''https://example.com/missing'')]
       (jinaUrl (js ''https://example.com/missing'')) 5 =
     (Resolved \<lparr>data = [], contentType = js ''text/plain'', statusCode = 200\<rparr>,
      [Call (js ''https://example.com/missing'') 5, Get (js ''https://example.com/missing''),
       Call (js ''https://r.jina.ai/https://example.com/missing'') 5,
       Get (js ''https://r.jina.ai/https://example.com/missing'')])"
  by (simp add: fetchContent.simps site_eval missing_site_def jinaUrl_def js_def [of "[]"])

lemma not_found_not_challenge: "\<not> isChallenge 404 (js ''Not Found'')"
  by (simp add: isChallenge_def lower_eval)

lemma missing_site_local_stage:
  "local_stage (example_env missing_site False) log (js ''https://example.com/missing'')
     \<lparr>data = js ''Not Found'', contentType = js ''text/html'', statusCode = 404\<rparr> = (Continue, log)"
  using not_found_not_challenge by (simp add: local_stage_def)

theorem proxy_body_verbatim_witness:
  "execute (example_env missing_site False) (js ''https://example.com/missing'') =
     (Result \<lparr>content_text = [], isError = False\<rparr>,
      [Call (js ''https://example.com/missing'') 5, Get (js ''https://example.com/missing''),
       Call (js ''https://r.jina.ai/https://example.com/missing'') 5,
       Get (js ''https://r.jina.ai/https://example.com/missing'')])"
proof -
  have "fetchContent (example_env missing_site False) [] (js ''https://example.com/missing'') 5 =
      (Resolved \<lparr>data = js ''Not Found'', contentType = js ''text/html'', statusCode = 404\<rparr>,
       [Call (js ''https://example.com/missing'') 5, Get (js ''https://example.com/missing'')]) \<and>
    local_stage (example_env missing_site False)
       [Call (js ''https://example.com/missing'') 5, Get (js ''https://example.com/missing'')]
       (js ''https://example.com/missing'')
       \<lparr>data = js ''Not Found'', contentType = js ''text/html'', statusCode = 404\<rparr> =
      (Continue, [Call (js ''https://example.com/missing'') 5, Get (js ''https://example.com/missing'')]) \<and>
    fetchContent (example_env missing_site False)
       [Call (js ''https://example.com/missing'') 5, Get (js ''https://example.com/missing'')]
       (jinaUrl (js ''https://example.com/missing'')) 5 =
      (Resolved \<lparr>data = [], contentType = js ''text/plain'', statusCode = 200\<rparr>,
       [Call (js ''https://example.com/missing'') 5, Get (js ''https://example.com/missing''),
        Call (js ''https://r.jina.ai/https://example.com/missing'') 5,
        Get (js ''https://r.jina.ai/https://example.com/missing'')]) \<and>
    statusCode \<lparr>data = [], contentType = js ''text/plain'', statusCode = 200\<rparr> \<ge> 200 \<and>
    statusCode \<lparr>data = [], contentType = js ''text/plain'', statusCode = 200\<rparr> < 300"
    using missing_site_local missing_site_local_stage missing_site_proxy by simp
  from proxy_body_verbatim [rule_format, OF this]
  show ?thesis by simp
qed

section \<open>The readable-document extractor\<close>

lemma untitled_local:
  "fetchContent untitled_env [] (js ''https://example.com/post'') 5 =
     (Resolved \<lparr>data = js ''<html><body><p>A paragraph of prose that is long enough to count.</p></body></html>'',
                contentType = js ''text/html'', statusCode = 200\<rparr>,
      [Call (js ''https://example.com/post'') 5, Get (js ''https://example.com/post'')])"
  by (simp add: fetchContent.simps untitled_env_def site_eval)

lemma untitled_not_challenge:
  "\<not> isChallenge 200 (js ''<html><body><p>A paragraph of prose that is long enough to count.</p></body></html>'')"
  by (simp add: isChallenge_def lower_eval)

lemma html_content_type:
  "\<not> js_includes (js ''text/html'') (js ''application/json'') \<and>
   \<not> js_includes (js ''text/html'') (js ''text/plain'') \<and>
   \<not> js_includes (js ''text/html'') (js ''text/markdown'') \<and>
   \<not> js_includes (js ''text/html'') (js ''text/x-component'') \<and>
   js_includes (js ''text/html'') (js ''text/html'')"
  by (simp add: js_def)

lemma untitled_document:
  \<open>readable_document untitled_env log (js ''<html><body><p>A paragraph of prose that is long enough to count.</p></body></html>'')
       (js ''https://example.com/post'') =
     (Inr (Some (js ''# \<newline>\<newline>A paragraph of prose that is long enough to count.'')),
      log @ [NewJSDOM, ReadabilityParse, Turndown])\<close>
  by (simp add: readable_document_def untitled_env_def example_env_def js_simps)

text \<open>
  Claim C6, as stated, fails: the code tests the article and its content and never the
  title.  For a page without a title Readability returns the empty title; the extractor
  still returns a text, whose heading holds no title, and \<open>execute\<close> returns it.
\<close>

theorem untitled_article_counterexample:
  \<open>readability_parse untitled_env (js ''<html><body><p>A paragraph of prose that is long enough to count.</p></body></html>'')
       (js ''https://example.com/post'') =
     Inr (Some \<lparr>title = [],
                content = Some (js ''<div id="readability-page-1" class="page"><p>A paragraph of prose that is long enough to count.</p></div>'')\<rparr>) \<and>
   fst (readable_document untitled_env [] (js ''<html><body><p>A paragraph of prose that is long enough to count.</p></body></html>'')
       (js ''https://example.com/post'')) =
     Inr (Some (js ''# \<newline>\<newline>A paragraph of prose that is long enough to count.'')) \<and>
   execute untitled_env (js ''https://example.com/post'') =
     (Result \<lparr>content_text = js ''# \<newline>\<newline>A paragraph of prose that is long enough to count.'',
              isError = False\<rparr>,
      [Call (js ''https://example.com/post'') 5, Get (js ''https://example.com/post''),
       NewJSDOM, ReadabilityParse, Turndown])\<close>
  using untitled_not_challenge html_content_type
  by (simp add: execute_def local_stage_def html_branch_def success_def untitled_local
      untitled_document)
    (simp add: untitled_env_def example_env_def)

text \<open>
  Claim C6, amended.  The extractor returns a text exactly when Readability returns an
  article whose content is longer than 100 characters (and no library throws), whatever
  the title is; the text is \<open># \<close>, the title, an empty line and the Markdown of the
  content.  When it returns no text, the HTML branch goes on with the scan of the
  \<open>script\<close> elements.
\<close>

theorem article_text_rule:
  "(fst (readable_document env log html url) = Inr (Some t) \<longleftrightarrow>
      jsdom_new env html url = None \<and>
      (\<exists>a c markdown. readability_parse env html url = Inr (Some a) \<and> content a = Some c \<and>
         length c > 100 \<and> turndown env c = Inr markdown \<and>
         t = js ''# '' @ title a @ js ''\<newline>\<newline>'' @ markdown)) \<and>
   (fst (readable_document env log html url) = Inr None \<longrightarrow>
      html_branch env log html url =
        (scan_scripts (script_texts env html url), snd (readable_document env log html url)))"
  by (auto simp: readable_document_def html_branch_def split: option.splits sum.splits if_splits)

theorem article_text_rule_witness:
  \<open>fst (readable_document titled_env [] (js ''<html><body><p>A paragraph of prose that is long enough to count.</p></body></html>'')
       (js ''https://example.com/post'')) =
     Inr (Some (js ''# Prose\<newline>\<newline>A paragraph of prose that is long enough to count.'')) \<and>
   html_branch (example_env blocked_site False) [] (js ''<html><body><p>A paragraph of prose that is long enough to count.</p></body></html>'')
       (js ''https://example.com/post'') = (Continue, [NewJSDOM, ReadabilityParse])\<close>
proof -
  let ?h = "js ''<html><body><p>A paragraph of prose that is long enough to count.</p></body></html>''"
  let ?u = "js ''https://example.com/post''"
  let ?c = \<open>js ''<div id="readability-page-1" class="page"><p>A paragraph of prose that is long enough to count.</p></div>''\<close>
  have "jsdom_new titled_env ?h ?u = None \<and>
    (\<exists>a c markdown. readability_parse titled_env ?h ?u = Inr (Some a) \<and> content a = Some c \<and>
         length c > 100 \<and> turndown titled_env c = Inr markdown \<and>
         js ''# Prose\<newline>\<newline>A paragraph of prose that is long enough to count.'' =
           js ''# '' @ title a @ js ''\<newline>\<newline>'' @ markdown)"
    by (simp add: titled_env_def untitled_env_def example_env_def js_simps)
  then have a: "fst (readable_document titled_env [] ?h ?u) =
      Inr (Some (js ''# Prose\<newline>\<newline>A paragraph of prose that is long enough to count.''))"
    using article_text_rule [of titled_env "[]" ?h ?u] by blast
  have n: "readable_document (example_env blocked_site False) [] ?h ?u = (Inr None, [NewJSDOM, ReadabilityParse])"
    by (simp add: readable_document_def example_env_def)
  then have "html_branch (example_env blocked_site False) [] ?h ?u =
      (scan_scripts (script_texts (example_env blocked_site False) ?h ?u),
       snd (readable_document (example_env blocked_site False) [] ?h ?u))"
    using article_text_rule [of "example_env blocked_site False" "[]" ?h ?u] by simp
  then have b: "html_branch (example_env blocked_site False) [] ?h ?u = (Continue, [NewJSDOM, ReadabilityParse])"
    using n by (simp add: example_env_def)
  from a b show ?thesis by blast
qed

section \<open>Exceptions and the result of \<open>execute\<close>\<close>

text \<open>
  Claim C7 says that every call of \<open>execute\<close> ends in a tool result, every exception
  being caught at the top and turned into an error-flagged result.  The run below shows
  where the code does not do so: the server answers with a redirect whose \<open>Location\<close> is
  \<open>http://\<close>, the URL constructor throws inside the response callback (line 36), outside
  the \<open>try\<close> and after the executor of the promise has returned; the promise of
  \<open>fetchContent\<close> never settles, \<open>execute\<close> returns no result and the exception reaches
  the host.
\<close>

theorem bad_location_unhandled:
  "execute (example_env bad_location_site False) (js ''http://example.com/'') =
     (Unhandled (Error (js ''Invalid URL'')),
      [Call (js ''http://example.com/'') 5, Get (js ''http://example.com/'')])"
  by (simp add: execute_def fetchContent.simps site_eval bad_location_site_def)

text \<open>In the model, where every request is answered by a whole response or by an error
  event, this is the one place: when every location resolves, \<open>execute\<close> returns a tool
  result, and a rejection of the local fetch gives the result of the \<open>catch\<close>, with the
  message of the exception.  A response whose body never ends leaves the promise pending
  as well; the model has no such answer.\<close>

lemma fetch_uncaught:
  "fst (fetchContent env log url m) = Uncaught e \<Longrightarrow> \<exists>l b. url_resolve env l b = Inl e"
proof (induction "nat (m + 1)" arbitrary: log url m)
  case 0
  then have "m < 0" by simp
  then have "fetchContent env log url m =
      (Rejected (Error (js ''Too many redirects'')), log @ [Call url m])"
    by (subst fetchContent.simps) simp
  with 0(2) show ?case by simp
next
  case (Suc n)
  note unc = \<open>fst (fetchContent env log url m) = Uncaught e\<close>
  from fetch_unfold_outcome [of env log url m]
  consider (a) e' where "fetchContent env log url m = (Rejected e', log @ [Call url m])"
    | (b) "fetchContent env log url m =
        (Rejected (Error (js ''Request aborted'')), log @ [Call url m, Get url, Destroy])"
    | (c) p where "fetchContent env log url m = (p, log @ [Call url m, Get url])"
        and "\<forall>e. p = Uncaught e \<longrightarrow> (\<exists>l. url_resolve env l url = Inl e)"
    | (d) u where "0 \<le> m"
        and "fetchContent env log url m = fetchContent env (log @ [Call url m, Get url]) u (m - 1)"
    by blast
  then show ?case
  proof cases
    case a
    with unc show ?thesis by simp
  next
    case b
    with unc show ?thesis by simp
  next
    case c
    with unc have "p = Uncaught e" by simp
    with c(2) show ?thesis by blast
  next
    case d
    from Suc(2) have "n = nat (m - 1 + 1)" by simp
    moreover have "fst (fetchContent env (log @ [Call url m, Get url]) u (m - 1)) = Uncaught e"
      using unc d(2) by simp
    ultimately show ?thesis by (rule Suc(1))
  qed
qed

lemma execute_returns_when_locations_resolve:
  assumes "\<And>l b. \<exists>u. url_resolve env l b = Inr u"
  shows "\<exists>res. fst (execute env url) = Result res"
proof -
  have no: "\<forall>e. fst (fetchContent env log u m) \<noteq> Uncaught e" for log u m
  proof (intro allI notI)
    fix e
    assume "fst (fetchContent env log u m) = Uncaught e"
    then obtain l b where "url_resolve env l b = Inl e" using fetch_uncaught by blast
    with assms [of l b] show False by auto
  qed
  have px: "\<exists>res. fst (proxy_stage env log url) = Result res" for log
  proof (cases "fetchContent env log (jinaUrl url) 5")
    case (Pair p log')
    then have "\<forall>e. p \<noteq> Uncaught e" using no [of log "jinaUrl url" 5] by simp
    with Pair show ?thesis
      by (cases p) (simp_all add: proxy_stage_def)
  qed
  show ?thesis
  proof (cases "fetchContent env [] url 5")
    case (Pair p log)
    then have nu: "\<forall>e. p \<noteq> Uncaught e" using no [of "[]" url 5] by simp
    show ?thesis
    proof (cases p)
      case (Resolved r)
      show ?thesis
      proof (cases "local_stage env log url r")
        case st: (Pair f log')
        from px [of log'] obtain res where "fst (proxy_stage env log' url) = Result res" by blast
        with Pair Resolved st show ?thesis
          by (cases f) (simp_all add: execute_def)
      qed
    next
      case (Rejected e)
      with Pair show ?thesis by (simp add: execute_def)
    next
      case (Uncaught e)
      with nu show ?thesis by simp
    qed
  qed
qed

lemma execute_catches_rejection:
  "fst (fetchContent env [] url 5) = Rejected e \<Longrightarrow>
     fst (execute env url) = Result (catch_result e)"
proof (cases "fetchContent env [] url 5")
  case (Pair p log)
  assume "fst (fetchContent env [] url 5) = Rejected e"
  with Pair have "p = Rejected e" by simp
  with Pair show ?thesis by (simp add: execute_def)
qed

end
